theory Spec2Isabelle
  imports Complex_Main
begin

section \<open>The Redis store used by the concurrency manager\<close>

text \<open>
  \<^verbatim>\<open>ConcurrencyManagerService\<close> keeps its locks and rate counters in one Redis instance
  and touches it through five commands: \<^verbatim>\<open>SET key value PX ttl NX\<close>, \<^verbatim>\<open>DEL\<close>,
  \<^verbatim>\<open>INCR\<close>, \<^verbatim>\<open>EXPIRE\<close> and \<^verbatim>\<open>GET\<close>. The store is a map from keys to entries; an
  entry carries its value and, when it has a time to live, the instant (in milliseconds)
  at which it stops existing. Both values the service stores are decimal integers (the
  text of \<^verbatim>\<open>Date.now()\<close> and a counter), so a value is an \<open>int\<close>. Time is an explicit
  argument \<open>now\<close> of every command; an entry whose instant has been reached is
  invisible to every command, as an expired key is in Redis. Counters are unbounded.
\<close>

record entry =
  val :: int
  expiry :: "int option"

type_synonym redis = "string \<Rightarrow> entry option"

datatype exn = Error string | ReplyError string

datatype set_reply = OK | Nil

definition live :: "int \<Rightarrow> entry \<Rightarrow> bool" where
  "live now e = (case expiry e of None \<Rightarrow> True | Some t \<Rightarrow> now < t)"

definition lookup :: "int \<Rightarrow> redis \<Rightarrow> string \<Rightarrow> entry option" where
  "lookup now s k = (case s k of None \<Rightarrow> None | Some e \<Rightarrow> if live now e then Some e else None)"

text \<open>\<^verbatim>\<open>SET key value PX ttl NX\<close>: a time to live that is not positive is refused with an
  error reply before the key is looked at; otherwise the key is written only if it does
  not exist.\<close>

definition redis_set_px_nx :: "int \<Rightarrow> string \<Rightarrow> int \<Rightarrow> int \<Rightarrow> redis \<Rightarrow> exn + (set_reply \<times> redis)" where
  "redis_set_px_nx now key v ttl s =
     (if ttl \<le> 0 then Inl (ReplyError ''ERR invalid expire time in set command'')
      else case lookup now s key of
             Some e \<Rightarrow> Inr (Nil, s)
           | None \<Rightarrow> Inr (OK, s(key \<mapsto> \<lparr>val = v, expiry = Some (now + ttl)\<rparr>)))"

text \<open>\<^verbatim>\<open>DEL key\<close>: removes the key and replies with the number of keys removed.\<close>

definition redis_del :: "int \<Rightarrow> string \<Rightarrow> redis \<Rightarrow> int \<times> redis" where
  "redis_del now key s = ((case lookup now s key of None \<Rightarrow> 0 | Some e \<Rightarrow> 1), s(key := None))"

text \<open>\<^verbatim>\<open>INCR key\<close>: a missing key counts as 0 and is created without a time to live; an
  existing key keeps its time to live.\<close>

definition redis_incr :: "int \<Rightarrow> string \<Rightarrow> redis \<Rightarrow> int \<times> redis" where
  "redis_incr now key s =
     (case lookup now s key of
        None \<Rightarrow> (1, s(key \<mapsto> \<lparr>val = 1, expiry = None\<rparr>))
      | Some e \<Rightarrow> (val e + 1, s(key \<mapsto> e\<lparr>val := val e + 1\<rparr>)))"

text \<open>\<^verbatim>\<open>EXPIRE key seconds\<close>: replies 0 for a missing key; a time that is not positive
  deletes the key at once.\<close>

definition redis_expire :: "int \<Rightarrow> string \<Rightarrow> int \<Rightarrow> redis \<Rightarrow> int \<times> redis" where
  "redis_expire now key seconds s =
     (case lookup now s key of
        None \<Rightarrow> (0, s)
      | Some e \<Rightarrow>
          if seconds \<le> 0 then (1, s(key := None))
          else (1, s(key \<mapsto> e\<lparr>expiry := Some (now + seconds * 1000)\<rparr>)))"

definition redis_get :: "int \<Rightarrow> string \<Rightarrow> redis \<Rightarrow> int option" where
  "redis_get now key s = map_option val (lookup now s key)"

section \<open>ConcurrencyManagerService\<close>

text \<open>
  \<^verbatim>\<open>
  async acquireLock(resource: string, ttl: number = 30000): Promise<boolean> {
    const lockKey = `lock:${resource}`;
    const lockValue = Date.now().toString();
    const result = await this.redis.set(lockKey, lockValue, 'PX', ttl, 'NX');
    return result === 'OK';
  }
  \<close>
  An error reply of Redis rejects the promise: the call throws.
\<close>

definition acquireLock :: "int \<Rightarrow> string \<Rightarrow> int \<Rightarrow> redis \<Rightarrow> exn + (bool \<times> redis)" where
  "acquireLock now resource ttl s =
     (let lockKey = ''lock:'' @ resource;
          lockValue = now
      in case redis_set_px_nx now lockKey lockValue ttl s of
           Inl e \<Rightarrow> Inl e
         | Inr (result, s') \<Rightarrow> Inr (result = OK, s'))"

text \<open>
  \<^verbatim>\<open>
  async releaseLock(resource: string): Promise<void> {
    const lockKey = `lock:${resource}`;
    await this.redis.del(lockKey);
  }
  \<close>
\<close>

definition releaseLock :: "int \<Rightarrow> string \<Rightarrow> redis \<Rightarrow> redis" where
  "releaseLock now resource s =
     (let lockKey = ''lock:'' @ resource in snd (redis_del now lockKey s))"

text \<open>
  \<^verbatim>\<open>
  async checkRateLimit(identifier: string, limit: number, window: number): Promise<boolean> {
    const key = `rate_limit:${identifier}`;
    const current = await this.redis.incr(key);
    if (current === 1) {
      await this.redis.expire(key, window);
    }
    return current <= limit;
  }
  \<close>
\<close>

definition checkRateLimit :: "int \<Rightarrow> string \<Rightarrow> int \<Rightarrow> int \<Rightarrow> redis \<Rightarrow> bool \<times> redis" where
  "checkRateLimit now identifier limit window s =
     (let key = ''rate_limit:'' @ identifier;
          (current, s1) = redis_incr now key s;
          s2 = (if current = 1 then snd (redis_expire now key window s1) else s1)
      in (current \<le> limit, s2))"

text \<open>
  \<^verbatim>\<open>
  async getCurrentUsage(identifier: string): Promise<number> {
    const key = `rate_limit:${identifier}`;
    const current = await this.redis.get(key);
    return parseInt(current || '0');
  }
  \<close>
\<close>

definition getCurrentUsage :: "int \<Rightarrow> string \<Rightarrow> redis \<Rightarrow> int" where
  "getCurrentUsage now identifier s =
     (let key = ''rate_limit:'' @ identifier
      in case redis_get now key s of None \<Rightarrow> 0 | Some current \<Rightarrow> current)"

section \<open>Histories of calls to the concurrency manager\<close>

text \<open>
  A history is a list of calls to the four methods, each with the instant at which it
  runs; \<open>run\<close> plays a history against the store and \<open>replies\<close> lists what the calls
  return. \<open>holders\<close> follows one resource
  through a history: it lists, as (instant of the grant, instant of expiry), the grants
  of \<open>acquireLock\<close> on the resource that no later \<open>releaseLock\<close> on it has cleared;
  \<open>unexpired now\<close> keeps the grants whose time to live has not run out at \<open>now\<close>.
\<close>

datatype call = Acquire string int | Release string | CheckRateLimit string int int | GetCurrentUsage string

datatype reply = RBool bool | RNum int | RVoid | RThrow exn

fun exec :: "int \<Rightarrow> call \<Rightarrow> redis \<Rightarrow> reply \<times> redis" where
  "exec t (Acquire r ttl) s =
     (case acquireLock t r ttl s of Inl e \<Rightarrow> (RThrow e, s) | Inr (b, s') \<Rightarrow> (RBool b, s'))"
| "exec t (Release r) s = (RVoid, releaseLock t r s)"
| "exec t (CheckRateLimit i l w) s = (case checkRateLimit t i l w s of (b, s') \<Rightarrow> (RBool b, s'))"
| "exec t (GetCurrentUsage i) s = (RNum (getCurrentUsage t i s), s)"

fun replies :: "(int \<times> call) list \<Rightarrow> redis \<Rightarrow> reply list" where
  "replies [] s = []"
| "replies ((t, c) # tr) s = fst (exec t c s) # replies tr (snd (exec t c s))"

fun run :: "(int \<times> call) list \<Rightarrow> redis \<Rightarrow> redis" where
  "run [] s = s"
| "run ((t, c) # tr) s = run tr (snd (exec t c s))"

fun grant_step :: "string \<Rightarrow> int \<Rightarrow> call \<Rightarrow> reply \<Rightarrow> (int \<times> int) list \<Rightarrow> (int \<times> int) list" where
  "grant_step r t (Acquire r' ttl) rep g = (if r' = r \<and> rep = RBool True then g @ [(t, t + ttl)] else g)"
| "grant_step r t (Release r') rep g = (if r' = r then [] else g)"
| "grant_step r t c rep g = g"

fun holders :: "string \<Rightarrow> (int \<times> call) list \<Rightarrow> redis \<Rightarrow> (int \<times> int) list \<Rightarrow> (int \<times> int) list" where
  "holders r [] s g = g"
| "holders r ((t, c) # tr) s g = holders r tr (snd (exec t c s)) (grant_step r t c (fst (exec t c s)) g)"

definition unexpired :: "int \<Rightarrow> (int \<times> int) list \<Rightarrow> (int \<times> int) list" where
  "unexpired now g = filter (\<lambda>x. now < snd x) g"

text \<open>The store agrees with the grants of a resource: at most one grant is unexpired, and
  the lock entry of the store is the one that grant wrote.\<close>

definition lock_inv :: "string \<Rightarrow> int \<Rightarrow> redis \<Rightarrow> (int \<times> int) list \<Rightarrow> bool" where
  "lock_inv r now s g =
     (length (unexpired now g) \<le> 1 \<and>
      (\<forall>x \<in> set (unexpired now g). \<exists>e. s (''lock:'' @ r) = Some e \<and> expiry e = Some (snd x)))"

text \<open>A series of \<open>checkRateLimit\<close> calls on one identifier, at the given instants.\<close>

fun checkRateLimit_calls :: "int list \<Rightarrow> string \<Rightarrow> int \<Rightarrow> int \<Rightarrow> redis \<Rightarrow> bool list \<times> redis" where
  "checkRateLimit_calls [] i l w s = ([], s)"
| "checkRateLimit_calls (t # ts) i l w s =
     (case checkRateLimit t i l w s of (b, s1) \<Rightarrow>
        (case checkRateLimit_calls ts i l w s1 of (bs, s2) \<Rightarrow> (b # bs, s2)))"

section \<open>DashboardService.calculateHealthScore\<close>

datatype health = healthy | warning | critical

text \<open>
  \<^verbatim>\<open>
  private calculateHealthScore(successRate: number, avgProcessingTime: number, queueStats: any) {
    if (successRate < 80 || avgProcessingTime > 300000 || queueStats.waiting > 100) {
      return 'critical';
    }
    if (successRate < 95 || avgProcessingTime > 120000 || queueStats.waiting > 50) {
      return 'warning';
    }
    return 'healthy';
  }
  \<close>
  The two rates are numbers computed by the metrics service (never NaN: see
  \<open>getSuccessRate\<close>), modelled as reals; \<open>waiting\<close> is the length of a job list.
\<close>

definition calculateHealthScore :: "real \<Rightarrow> real \<Rightarrow> int \<Rightarrow> health" where
  "calculateHealthScore successRate avgProcessingTime waiting =
     (if successRate < 80 \<or> avgProcessingTime > 300000 \<or> waiting > 100 then critical
      else if successRate < 95 \<or> avgProcessingTime > 120000 \<or> waiting > 50 then warning
      else healthy)"

section \<open>AutoScalerService.calculateOptimalWorkers\<close>

definition maxWorkers :: int where "maxWorkers = 10"
definition minWorkers :: int where "minWorkers = 1"

text \<open>
  \<^verbatim>\<open>
  private calculateOptimalWorkers(queueDepth: number, avgProcessingTime: number): number {
    if (queueDepth > 50) {
      return Math.min(this.currentWorkers + 2, this.maxWorkers);
    }
    if (avgProcessingTime > 180000 && queueDepth > 10) {
      return Math.min(this.currentWorkers + 1, this.maxWorkers);
    }
    if (queueDepth === 0 && this.currentWorkers > this.minWorkers) {
      return Math.max(this.currentWorkers - 1, this.minWorkers);
    }
    return this.currentWorkers;
  }
  \<close>
  The field \<^verbatim>\<open>this.currentWorkers\<close> is the first argument.
\<close>

definition calculateOptimalWorkers :: "int \<Rightarrow> int \<Rightarrow> int \<Rightarrow> int" where
  "calculateOptimalWorkers currentWorkers queueDepth avgProcessingTime =
     (if queueDepth > 50 then min (currentWorkers + 2) maxWorkers
      else if avgProcessingTime > 180000 \<and> queueDepth > 10 then min (currentWorkers + 1) maxWorkers
      else if queueDepth = 0 \<and> currentWorkers > minWorkers then max (currentWorkers - 1) minWorkers
      else currentWorkers)"

section \<open>MetricsService\<close>

datatype metric_status = success | error | timeout

record JobMetric =
  duration :: int
  status :: metric_status
  timestamp :: int

text \<open>
  A JavaScript number that a division of two counts can yield: \<^verbatim>\<open>0 / 0\<close> is \<^verbatim>\<open>NaN\<close>
  and \<^verbatim>\<open>k / 0\<close> is \<^verbatim>\<open>Infinity\<close> for a positive \<open>k\<close>. Finite quotients are taken in the
  reals (the rounding of doubles is not modelled).
\<close>

datatype jsnumber = Finite real | NaN | Infinity

definition js_div :: "nat \<Rightarrow> nat \<Rightarrow> jsnumber" where
  "js_div a b = (if b = 0 then (if a = 0 then NaN else Infinity) else Finite (real a / real b))"

definition js_times :: "jsnumber \<Rightarrow> real \<Rightarrow> jsnumber" where
  "js_times x k = (case x of Finite r \<Rightarrow> Finite (r * k) | NaN \<Rightarrow> NaN | Infinity \<Rightarrow> Infinity)"

text \<open>
  The \<^verbatim>\<open>where\<close> object of a \<^verbatim>\<open>count\<close> query: \<^verbatim>\<open>{ timestamp: { $gte: since } }\<close>, with
  \<^verbatim>\<open>status: 'success'\<close> or without. The repository is an external collaborator
  (\<^verbatim>\<open>Repository<JobMetric>\<close> of TypeORM); \<^verbatim>\<open>$gte\<close> is the operator syntax of MongoDB, and
  what the injected repository does with such an object is not decided by this code (a
  SQL data source rejects the query). So the repository is the argument \<open>count\<close>, from
  the \<^verbatim>\<open>where\<close> object to the exception the query is rejected with or the number it
  answers.
\<close>

record FindWhere =
  timestamp_gte :: int
  where_status :: "metric_status option"

text \<open>\<^verbatim>\<open>await Promise.all([p, q])\<close>: both answers, or the rejection that settles first
  (\<open>second_first\<close>: the second promise rejects before the first).\<close>

definition promise_all2 :: "bool \<Rightarrow> exn + 'a \<Rightarrow> exn + 'b \<Rightarrow> exn + ('a \<times> 'b)" where
  "promise_all2 second_first p q =
     (case p of
        Inr x \<Rightarrow> (case q of Inr y \<Rightarrow> Inr (x, y) | Inl e \<Rightarrow> Inl e)
      | Inl e \<Rightarrow> (case q of Inr y \<Rightarrow> Inl e | Inl e' \<Rightarrow> Inl (if second_first then e' else e)))"

text \<open>
  \<^verbatim>\<open>
  async getSuccessRate(hours: number = 24): Promise<number> {
    const since = new Date(Date.now() - hours * 60 * 60 * 1000);
    const [total, successful] = await Promise.all([
      this.jobMetricRepository.count({ where: { timestamp: { $gte: since } } }),
      this.jobMetricRepository.count({ where: { timestamp: { $gte: since }, status: 'success' } })
    ]);
    return total > 0 ? (successful / total) * 100 : 0;
  }
  \<close>
  \<^verbatim>\<open>Date.now()\<close> is the argument \<open>now\<close>.
\<close>

definition getSuccessRate :: "bool \<Rightarrow> (FindWhere \<Rightarrow> exn + nat) \<Rightarrow> int \<Rightarrow> int \<Rightarrow> exn + jsnumber" where
  "getSuccessRate second_first count now hours =
     (let since = now - hours * 60 * 60 * 1000
      in case promise_all2 second_first
                (count \<lparr>timestamp_gte = since, where_status = None\<rparr>)
                (count \<lparr>timestamp_gte = since, where_status = Some success\<rparr>) of
           Inl e \<Rightarrow> Inl e
         | Inr (total', successful) \<Rightarrow>
             Inr (if total' > 0 then js_times (js_div successful total') 100 else Finite 0))"

section \<open>Enqueueing: QueueService and PriorityQueueService\<close>

text \<open>
  The payload is typed \<^verbatim>\<open>{owner, repo, pullNumber, headSha, baseSha}\<close> (and \<^verbatim>\<open>priority\<close>
  for the priority service), but the type is erased at run time and the webhook builds
  the object from an untyped request body, so each key may be missing: a field is an
  option. The Bull queue is the list of the jobs added to it, in the order of the calls.
\<close>

record JobData =
  owner :: "string option"
  repo :: "string option"
  pullNumber :: "int option"
  headSha :: "string option"
  baseSha :: "string option"
  priority :: "string option"

datatype backoff_type = exponential

record JobOptions =
  opt_priority :: "int option"
  attempts :: "int option"
  backoff :: "(backoff_type \<times> int) option"
  removeOnComplete :: "int option"
  removeOnFail :: "int option"

record Job =
  name :: string
  data :: JobData
  opts :: JobOptions

type_synonym queue = "Job list"

definition queue_add :: "string \<Rightarrow> JobData \<Rightarrow> JobOptions \<Rightarrow> queue \<Rightarrow> queue" where
  "queue_add n d opt q = q @ [\<lparr>name = n, data = d, opts = opt\<rparr>]"

text \<open>
  \<^verbatim>\<open>
  async addCodeReviewJob(data: {...}): Promise<void> {
    await this.codeReviewQueue.add('analyze-pull-request', data, {
      attempts: 3,
      backoff: { type: 'exponential', delay: 2000 },
    });
    this.logger.log(`Added code review job for ${data.owner}/${data.repo}#${data.pullNumber}`);
  }
  \<close>
  The result is \<open>Inl\<close> of the exception when the call throws and \<open>Inr\<close> of the new queue
  when it returns.
\<close>

definition addCodeReviewJob :: "JobData \<Rightarrow> queue \<Rightarrow> exn + queue" where
  "addCodeReviewJob d q =
     Inr (queue_add ''analyze-pull-request'' d
       \<lparr>opt_priority = None, attempts = Some 3, backoff = Some (exponential, 2000),
        removeOnComplete = None, removeOnFail = None\<rparr> q)"

definition priorityMap :: "string \<Rightarrow> int option" where
  "priorityMap = map_of [(''low'', 1), (''normal'', 5), (''high'', 10), (''critical'', 20)]"

definition attemptMap :: "string \<Rightarrow> int option" where
  "attemptMap = map_of [(''low'', 2), (''normal'', 3), (''high'', 5), (''critical'', 10)]"

text \<open>\<^verbatim>\<open>return attemptMap[priority] || 3;\<close> (no entry of the table is 0).\<close>

definition getAttemptsForPriority :: "string option \<Rightarrow> int" where
  "getAttemptsForPriority p =
     (case p of None \<Rightarrow> 3 | Some k \<Rightarrow> (case attemptMap k of None \<Rightarrow> 3 | Some n \<Rightarrow> n))"

text \<open>
  \<^verbatim>\<open>
  async addPriorityJob(data: PriorityJobData): Promise<void> {
    const jobOptions = {
      priority: priorityMap[data.priority],
      attempts: this.getAttemptsForPriority(data.priority),
      backoff: { type: 'exponential', delay: 2000 },
      removeOnComplete: 100,
      removeOnFail: 50,
    };
    await this.codeReviewQueue.add('analyze-pull-request', data, jobOptions);
    this.logger.log(...);
  }
  \<close>
\<close>

definition addPriorityJob :: "JobData \<Rightarrow> queue \<Rightarrow> exn + queue" where
  "addPriorityJob d q =
     (let jobOptions =
            \<lparr>opt_priority = (case priority d of None \<Rightarrow> None | Some k \<Rightarrow> priorityMap k),
             attempts = Some (getAttemptsForPriority (priority d)),
             backoff = Some (exponential, 2000),
             removeOnComplete = Some 100, removeOnFail = Some 50\<rparr>
      in Inr (queue_add ''analyze-pull-request'' d jobOptions q))"

text \<open>The payload lacks one of the keys the specification requires.\<close>

definition missing_required :: "JobData \<Rightarrow> bool" where
  "missing_required d =
     (owner d = None \<or> repo d = None \<or> pullNumber d = None \<or> headSha d = None \<or> baseSha d = None)"

section \<open>CodeAnalysisService\<close>

text \<open>
  A JavaScript string is the list of its UTF-16 code units; \<open>lit\<close> gives the code units
  of an ASCII literal.
\<close>

type_synonym jsstring = "nat list"

definition lit :: "string \<Rightarrow> jsstring" where
  "lit s = map of_char s"

text \<open>The code units that \<^verbatim>\<open>String.prototype.trim\<close> strips and that \<^verbatim>\<open>\s\<close> matches:
  the white space and line terminator code points of ECMAScript.\<close>

definition isWhiteSpace :: "nat \<Rightarrow> bool" where
  "isWhiteSpace c =
     (c = 9 \<or> c = 10 \<or> c = 11 \<or> c = 12 \<or> c = 13 \<or> c = 32 \<or> c = 160 \<or> c = 5760
      \<or> (8192 \<le> c \<and> c \<le> 8202) \<or> c = 8232 \<or> c = 8233 \<or> c = 8239 \<or> c = 8287
      \<or> c = 12288 \<or> c = 65279)"

definition trim :: "jsstring \<Rightarrow> jsstring" where
  "trim s = rev (dropWhile isWhiteSpace (rev (dropWhile isWhiteSpace s)))"

definition startsWith :: "jsstring \<Rightarrow> jsstring \<Rightarrow> bool" where
  "startsWith s p = (take (length p) s = p)"

fun includes_str :: "jsstring \<Rightarrow> jsstring \<Rightarrow> bool" where
  "includes_str [] p = (p = [])"
| "includes_str (c # cs) p = (startsWith (c # cs) p \<or> includes_str cs p)"

text \<open>\<^verbatim>\<open>s.split('\n')\<close>: the pieces between line feeds; never empty.\<close>

fun split_str :: "jsstring \<Rightarrow> jsstring list" where
  "split_str [] = [[]]"
| "split_str (c # cs) =
     (if c = 10 then [] # split_str cs
      else (case split_str cs of [] \<Rightarrow> [[c]] | l # ls \<Rightarrow> (c # l) # ls))"

text \<open>\<^verbatim>\<open>n.toString()\<close> for a non-negative integer: its decimal digits.\<close>

fun toString :: "nat \<Rightarrow> jsstring" where
  "toString n = (if n < 10 then [48 + n] else toString (n div 10) @ [48 + n mod 10])"

declare toString.simps [simp del]

text \<open>A regular expression of the form \<^verbatim>\<open>/a\s*b/\<close>, \<open>a\<close> and \<open>b\<close> literal and \<open>b\<close>
  starting with a character that is not white space: \<open>test_at\<close> matches at the start
  of the string, \<open>regex_test\<close> anywhere in it. \<^verbatim>\<open>/a/\<close> is the case of an empty \<open>b\<close>.\<close>

definition test_at :: "jsstring \<Rightarrow> jsstring \<Rightarrow> jsstring \<Rightarrow> bool" where
  "test_at a b s = (startsWith s a \<and> startsWith (dropWhile isWhiteSpace (drop (length a) s)) b)"

fun regex_test :: "jsstring \<Rightarrow> jsstring \<Rightarrow> jsstring \<Rightarrow> bool" where
  "regex_test a b [] = test_at a b []"
| "regex_test a b (c # cs) = (test_at a b (c # cs) \<or> regex_test a b cs)"

datatype issue_type = bug | security | performance | style | best_practice

datatype severity = low | medium | high | critical_severity

record CodeIssue =
  type :: issue_type
  severity :: severity
  message :: jsstring
  line :: "jsstring option"
  suggestion :: jsstring

record CodeAnalysisResult =
  summary :: jsstring
  issues :: "CodeIssue list"
  positives :: "jsstring list"

text \<open>
  \<^verbatim>\<open>
  private containsSecurityRisk(content: string): boolean {
    const securityPatterns = [
      /eval\s*\(/, /innerHTML\s*=/, /document\.write\s*\(/, /\.exec\s*\(/,
      /process\.env\./, /localStorage\./, /sessionStorage\./,
    ];
    return securityPatterns.some(pattern => pattern.test(content));
  }
  \<close>
\<close>

definition securityPatterns :: "(jsstring \<times> jsstring) list" where
  "securityPatterns =
     [(lit ''eval'', lit ''(''), (lit ''innerHTML'', lit ''=''), (lit ''document.write'', lit ''(''),
      (lit ''.exec'', lit ''(''), (lit ''process.env.'', []), (lit ''localStorage.'', []),
      (lit ''sessionStorage.'', [])]"

definition containsSecurityRisk :: "jsstring \<Rightarrow> bool" where
  "containsSecurityRisk content = list_ex (\<lambda>(a, b). regex_test a b content) securityPatterns"

text \<open>
  \<^verbatim>\<open>
  private hasErrorHandling(lines: string[], currentIndex: number): boolean {
    const searchRange = 10;
    const start = Math.max(0, currentIndex - searchRange);
    const end = Math.min(lines.length, currentIndex + searchRange);
    for (let i = start; i < end; i++) {
      const line = lines[i].trim();
      if (line.includes('try {') || line.includes('catch')) { return true; }
    }
    return false;
  }
  \<close>
\<close>

definition hasErrorHandling :: "jsstring list \<Rightarrow> nat \<Rightarrow> bool" where
  "hasErrorHandling lines currentIndex =
     (let searchRange = 10;
          start = max 0 (currentIndex - searchRange);
          end' = min (length lines) (currentIndex + searchRange)
      in list_ex (\<lambda>i. let line = trim (lines ! i)
                      in includes_str line (lit ''try {'') \<or> includes_str line (lit ''catch''))
           [start..<end'])"

text \<open>The body of the loop of \<^verbatim>\<open>performHeuristicAnalysis\<close> for one index: the issues it
  pushes, in order.\<close>

definition line_issues :: "jsstring list \<Rightarrow> nat \<Rightarrow> CodeIssue list" where
  "line_issues lines i =
     (let line = lines ! i in
      if \<not> startsWith line (lit ''+'') then []
      else
        let content = trim (drop 1 line) in
        (if containsSecurityRisk content
         then [\<lparr>type = security, severity = high,
                message = lit ''Potential security risk detected'',
                line = Some (toString (i + 1)),
                suggestion = lit ''Review for security implications and add proper validation''\<rparr>]
         else [])
        @ (if includes_str content (lit ''TODO'') \<or> includes_str content (lit ''FIXME'')
           then [\<lparr>type = best_practice, severity = low,
                  message = lit ''TODO/FIXME comment found'',
                  line = Some (toString (i + 1)),
                  suggestion = lit ''Consider creating a proper issue tracker item''\<rparr>]
           else [])
        @ (if includes_str content (lit ''console.log'')
           then [\<lparr>type = best_practice, severity = low,
                  message = lit ''Console.log statement found'',
                  line = Some (toString (i + 1)),
                  suggestion = lit ''Use proper logging framework instead of console.log''\<rparr>]
           else [])
        @ (if includes_str content (lit ''await '') \<and> \<not> hasErrorHandling lines i
           then [\<lparr>type = bug, severity = medium,
                  message = lit ''Async operation without error handling'',
                  line = Some (toString (i + 1)),
                  suggestion = lit ''Add try-catch block or proper error handling''\<rparr>]
           else []))"

text \<open>\<^verbatim>\<open>for (let i = 0; i < lines.length; i++) { ... }\<close>, from index \<open>i\<close> on, with the
  issues pushed so far.\<close>

function heuristic_loop :: "jsstring list \<Rightarrow> nat \<Rightarrow> CodeIssue list \<Rightarrow> CodeIssue list" where
  "heuristic_loop lines i acc =
     (if i < length lines then heuristic_loop lines (i + 1) (acc @ line_issues lines i) else acc)"
  by pat_completeness auto
termination
  by (relation "measure (\<lambda>(lines, i, acc). length lines - i)") auto

declare heuristic_loop.simps [simp del]

definition performHeuristicAnalysis :: "jsstring \<Rightarrow> CodeIssue list" where
  "performHeuristicAnalysis diff = (let lines = split_str diff in heuristic_loop lines 0 [])"

text \<open>
  The reply of \<^verbatim>\<open>OpenAIService.analyzeCodeDiff\<close> is untyped JSON: each of its three
  fields may be missing (or falsy), which is \<open>None\<close>. The service is the argument \<open>ai\<close>,
  from the diff to the exception it throws or the reply it gives.
\<close>

record AiAnalysis =
  ai_summary :: "jsstring option"
  ai_issues :: "CodeIssue list option"
  ai_positives :: "jsstring list option"

text \<open>
  The \<^verbatim>\<open>try\<close> block of \<^verbatim>\<open>analyzeCode\<close>. The second component lists the diffs sent to
  the AI service.
  \<^verbatim>\<open>
      if (!diff || diff.trim().length === 0) {
        return { summary: 'No code changes detected', issues: [], positives: [] };
      }
      const analysis = await this.openaiService.analyzeCodeDiff(diff);
      const heuristicIssues = this.performHeuristicAnalysis(diff);
      const combinedIssues = [...(analysis.issues || []), ...heuristicIssues];
      return {
        summary: analysis.summary || 'Code analysis completed',
        issues: combinedIssues,
        positives: analysis.positives || [],
      };
  \<close>
\<close>

definition analyzeCode_try :: "(jsstring \<Rightarrow> exn + AiAnalysis) \<Rightarrow> jsstring \<Rightarrow> (exn + CodeAnalysisResult) \<times> jsstring list" where
  "analyzeCode_try ai diff =
     (if diff = [] \<or> length (trim diff) = 0
      then (Inr \<lparr>summary = lit ''No code changes detected'', issues = [], positives = []\<rparr>, [])
      else case ai diff of
             Inl e \<Rightarrow> (Inl e, [diff])
           | Inr analysis \<Rightarrow>
               let heuristicIssues = performHeuristicAnalysis diff;
                   combinedIssues =
                     (case ai_issues analysis of None \<Rightarrow> [] | Some xs \<Rightarrow> xs) @ heuristicIssues
               in (Inr \<lparr>summary =
                          (case ai_summary analysis of
                             None \<Rightarrow> lit ''Code analysis completed''
                           | Some t \<Rightarrow> if t = [] then lit ''Code analysis completed'' else t),
                        issues = combinedIssues,
                        positives = (case ai_positives analysis of None \<Rightarrow> [] | Some ps \<Rightarrow> ps)\<rparr>,
                   [diff]))"

text \<open>
  \<^verbatim>\<open>analyzeCode\<close>: the \<^verbatim>\<open>try\<close> block, and the \<^verbatim>\<open>catch\<close> block for what it throws.
  \<^verbatim>\<open>
    } catch (error) {
      this.logger.error(...);
      const heuristicIssues = this.performHeuristicAnalysis(diff);
      return {
        summary: 'Analysis completed with basic checks only (AI analysis unavailable)',
        issues: heuristicIssues,
        positives: [],
      };
    }
  \<close>
\<close>

definition analyzeCode :: "(jsstring \<Rightarrow> exn + AiAnalysis) \<Rightarrow> jsstring \<Rightarrow> (exn + CodeAnalysisResult) \<times> jsstring list" where
  "analyzeCode ai diff =
     (case analyzeCode_try ai diff of
        (Inr result, calls) \<Rightarrow> (Inr result, calls)
      | (Inl err, calls) \<Rightarrow>
          (let heuristicIssues = performHeuristicAnalysis diff
           in (Inr \<lparr>summary = lit ''Analysis completed with basic checks only (AI analysis unavailable)'',
                    issues = heuristicIssues, positives = []\<rparr>, calls)))"

section \<open>The job processors\<close>

text \<open>
  The state the processors act on: the Redis store, the metrics table, the review
  records (a review's id is its index; the value is its status), the comments saved, the
  calls made to GitHub, and the progress of the job. Redis answers every command; every
  other collaborator call may throw, and what each call of one run does is given by a
  record of outcomes (\<open>None\<close>: the call succeeds).
\<close>

datatype review_status = pending | in_progress | completed | failed

datatype github_call = PostReviewComments "CodeIssue list" | PostReviewSummary jsstring

record world =
  redis :: redis
  metrics :: "JobMetric list"
  reviews :: "review_status list"
  comments :: "(nat \<times> CodeIssue list) list"
  github_calls :: "github_call list"
  progress :: nat

record collaborators =
  createReview_out :: "exn option"
  updateReviewStatus_out :: "review_status \<Rightarrow> exn option"
  addReviewComments_out :: "exn option"
  octokit_pulls_get :: "exn + jsstring"
  octokit_post_comments :: "exn option"
  octokit_post_summary :: "exn option"
  analyzeCodeDiff :: "jsstring \<Rightarrow> exn + AiAnalysis"
  save_metric_out :: "metric_status \<Rightarrow> exn option"
  elapsed :: int

text \<open>An asynchronous step either throws or returns a value, and leaves a state.\<close>

type_synonym 'a step = "world \<Rightarrow> (exn + 'a) \<times> world"

definition return :: "'a \<Rightarrow> 'a step" where
  "return x w = (Inr x, w)"

definition throw :: "exn \<Rightarrow> 'a step" where
  "throw e w = (Inl e, w)"

text \<open>\<^verbatim>\<open>const x = await m; f(x)\<close>\<close>

definition await :: "'a step \<Rightarrow> ('a \<Rightarrow> 'b step) \<Rightarrow> 'b step" where
  "await m f w = (case m w of (Inl e, w') \<Rightarrow> (Inl e, w') | (Inr x, w') \<Rightarrow> f x w')"

text \<open>\<^verbatim>\<open>try { m } catch (error) { h(error) }\<close>\<close>

definition try_catch :: "'a step \<Rightarrow> (exn \<Rightarrow> 'a step) \<Rightarrow> 'a step" where
  "try_catch m h w = (case m w of (Inl e, w') \<Rightarrow> h e w' | (Inr x, w') \<Rightarrow> (Inr x, w'))"

text \<open>\<^verbatim>\<open>try { m } finally { f }\<close>: \<open>f\<close> runs on every exit of \<open>m\<close>; the outcome of \<open>m\<close>
  stands unless \<open>f\<close> throws.\<close>

definition try_finally :: "'a step \<Rightarrow> unit step \<Rightarrow> 'a step" where
  "try_finally m f w =
     (case m w of (r, w') \<Rightarrow>
        (case f w' of (Inl e, w'') \<Rightarrow> (Inl e, w'') | (Inr u, w'') \<Rightarrow> (r, w'')))"

subsection \<open>DatabaseService, GithubService, MetricsService, the job\<close>







text \<open>
  \<^verbatim>\<open>
  async recordJobCompletion(duration, status, metadata?) {
    const metric = this.jobMetricRepository.create({ duration, status, metadata, timestamp: new Date() });
    await this.jobMetricRepository.save(metric);
    this.logger.log(...);
  }
  \<close>
\<close>

definition recordJobCompletion :: "collaborators \<Rightarrow> int \<Rightarrow> int \<Rightarrow> metric_status \<Rightarrow> unit step" where
  "recordJobCompletion c now d st w =
     (case save_metric_out c st of
        Some e \<Rightarrow> (Inl e, w)
      | None \<Rightarrow> (Inr (), w\<lparr>metrics := metrics w @ [\<lparr>duration = d, status = st, timestamp = now\<rparr>]\<rparr>))"

definition job_progress :: "nat \<Rightarrow> unit step" where
  "job_progress n w = (Inr (), w\<lparr>progress := n\<rparr>)"

definition checkRateLimit_step :: "int \<Rightarrow> string \<Rightarrow> int \<Rightarrow> int \<Rightarrow> bool step" where
  "checkRateLimit_step now i l wd w =
     (case checkRateLimit now i l wd (redis w) of (b, s) \<Rightarrow> (Inr b, w\<lparr>redis := s\<rparr>))"

definition acquireLock_step :: "int \<Rightarrow> string \<Rightarrow> int \<Rightarrow> bool step" where
  "acquireLock_step now r ttl w =
     (case acquireLock now r ttl (redis w) of
        Inl e \<Rightarrow> (Inl e, w)
      | Inr (b, s) \<Rightarrow> (Inr b, w\<lparr>redis := s\<rparr>))"

definition releaseLock_step :: "int \<Rightarrow> string \<Rightarrow> unit step" where
  "releaseLock_step now r w = (Inr (), w\<lparr>redis := releaseLock now r (redis w)\<rparr>)"



subsection \<open>CodeReviewProcessor\<close>



subsection \<open>EnhancedCodeReviewProcessor\<close>

text \<open>A missing key of \<^verbatim>\<open>job.data\<close> prints as \<^verbatim>\<open>undefined\<close> in a template string.\<close>

definition template :: "string option \<Rightarrow> string" where
  "template x = (case x of None \<Rightarrow> ''undefined'' | Some t \<Rightarrow> t)"

definition template_number :: "int option \<Rightarrow> string" where
  "template_number x =
     (case x of
        None \<Rightarrow> ''undefined''
      | Some n \<Rightarrow>
          (if n < 0 then ''-'' else [])
          @ map (\<lambda>u. ''0123456789'' ! (u - 48)) (toString (nat \<bar>n\<bar>)))"

text \<open>\<^verbatim>\<open>`pr:${repoIdentifier}:${pullNumber}`\<close> with
  \<^verbatim>\<open>repoIdentifier = `${owner}/${repo}`\<close>.\<close>

definition lock_resource :: "JobData \<Rightarrow> string" where
  "lock_resource d =
     (let repoIdentifier = template (owner d) @ ''/'' @ template (repo d)
      in ''pr:'' @ repoIdentifier @ '':'' @ template_number (pullNumber d))"

text \<open>
  A job result is the pair of its \<^verbatim>\<open>status\<close> and its \<^verbatim>\<open>message\<close>, if any.
  \<^verbatim>\<open>
  private async processCodeReview(job: Job): Promise<any> {
    // Implementation details from previous articles
    // This would include the actual code analysis logic
    return { status: 'completed' };
  }
  \<close>
\<close>

definition processCodeReview :: "(string \<times> string option) step" where
  "processCodeReview = return (''completed'', None)"

text \<open>
  The \<^verbatim>\<open>try\<close> block of \<^verbatim>\<open>EnhancedCodeReviewProcessor.handleCodeReview\<close>.
  \<^verbatim>\<open>
      const canProceed = await this.concurrencyManager.checkRateLimit(`github:${owner}`, 100, 3600);
      if (!canProceed) { this.logger.warn(...); throw new Error('Rate limit exceeded'); }
      const lockAcquired = await this.concurrencyManager.acquireLock(`pr:${repoIdentifier}:${pullNumber}`, 300000);
      if (!lockAcquired) {
        this.logger.warn(...);
        return { status: 'duplicate', message: 'Job already in progress' };
      }
      await job.progress(10);
      const result = await this.processCodeReview(job);
      const duration = Date.now() - startTime;
      await this.metricsService.recordJobCompletion(duration, 'success');
      await job.progress(100);
      return result;
  \<close>
\<close>

definition Enhanced_try :: "collaborators \<Rightarrow> int \<Rightarrow> JobData \<Rightarrow> (string \<times> string option) step" where
  "Enhanced_try c now d =
     await (checkRateLimit_step now (''github:'' @ template (owner d)) 100 3600) (\<lambda>canProceed.
     if \<not> canProceed then throw (Error ''Rate limit exceeded'')
     else
       await (acquireLock_step now (lock_resource d) 300000) (\<lambda>lockAcquired.
       if \<not> lockAcquired then return (''duplicate'', Some ''Job already in progress'')
       else
         await (job_progress 10) (\<lambda>_.
         await processCodeReview (\<lambda>result.
         await (recordJobCompletion c (now + elapsed c) (elapsed c) success) (\<lambda>_.
         await (job_progress 100) (\<lambda>_.
         return result))))))"

text \<open>
  \<^verbatim>\<open>
    try { ... } catch (error) {
      const duration = Date.now() - startTime;
      await this.metricsService.recordJobCompletion(duration, 'error');
      this.logger.error(...);
      throw error;
    } finally {
      // Always release the lock
      await this.concurrencyManager.releaseLock(`pr:${repoIdentifier}:${pullNumber}`);
    }
  \<close>
  The job starts at \<open>now\<close> and its Redis commands run at \<open>now\<close>; \<open>elapsed c\<close> is the
  time the job has taken when a metric is recorded.
\<close>

definition Enhanced_handleCodeReview :: "collaborators \<Rightarrow> int \<Rightarrow> JobData \<Rightarrow> (string \<times> string option) step" where
  "Enhanced_handleCodeReview c now d =
     try_finally
       (try_catch (Enhanced_try c now d)
          (\<lambda>err. await (recordJobCompletion c (now + elapsed c) (elapsed c) error) (\<lambda>_. throw err)))
       (releaseLock_step now (lock_resource d))"

text \<open>A step leaves a component \<open>f\<close> of the state as it was.\<close>

definition frames :: "(world \<Rightarrow> 'x) \<Rightarrow> 'a step \<Rightarrow> bool" where
  "frames f m = (\<forall>w. f (snd (m w)) = f w)"

section \<open>Health classification and autoscaling: the thresholds\<close>

text \<open>
  C5. For all inputs the classification is \<open>critical\<close> exactly when the success rate is
  below 80, or the average processing time above 300000 ms, or more than 100 jobs wait;
  otherwise \<open>warning\<close> exactly when the success rate is below 95, or the average time
  above 120000 ms, or more than 50 jobs wait; otherwise \<open>healthy\<close>. The most severe class
  wins. (70, 1000, 0) is critical, (96, 1000, 0) healthy and (90, 1000, 0) warning.
\<close>

theorem health_classification:
  "(calculateHealthScore sr apt w = critical \<longleftrightarrow> (sr < 80 \<or> apt > 300000 \<or> w > 100))
   \<and> (calculateHealthScore sr apt w = warning \<longleftrightarrow>
        (\<not> (sr < 80 \<or> apt > 300000 \<or> w > 100) \<and> (sr < 95 \<or> apt > 120000 \<or> w > 50)))
   \<and> (calculateHealthScore sr apt w = healthy \<longleftrightarrow>
        (\<not> (sr < 80 \<or> apt > 300000 \<or> w > 100) \<and> \<not> (sr < 95 \<or> apt > 120000 \<or> w > 50)))
   \<and> calculateHealthScore 70 1000 0 = critical
   \<and> calculateHealthScore 96 1000 0 = healthy
   \<and> calculateHealthScore 90 1000 0 = warning"
  by (simp add: calculateHealthScore_def)

text \<open>
  C6. For every current worker count between \<open>minWorkers = 1\<close> and \<open>maxWorkers = 10\<close>
  the recommendation is the first rule that applies, in this order: queue depth above 50
  gives two more workers, capped at the maximum; a slow average (above 180000 ms) with a
  depth above 10 gives one more, capped; an empty queue with more than the minimum gives
  one fewer, not below the minimum; otherwise the count stays. The result lies between
  the minimum and the maximum. A depth of 60 gives \<open>min (current + 2) 10\<close>; an empty
  queue with 3 workers gives 2.
\<close>

theorem autoscaler_recommendation:
  assumes "1 \<le> cw" and "cw \<le> 10"
  shows "calculateOptimalWorkers cw qd apt =
           (if qd > 50 then min (cw + 2) 10
            else if apt > 180000 \<and> qd > 10 then min (cw + 1) 10
            else if qd = 0 \<and> cw > 1 then max (cw - 1) 1
            else cw)
         \<and> minWorkers = 1 \<and> maxWorkers = 10
         \<and> minWorkers \<le> calculateOptimalWorkers cw qd apt
         \<and> calculateOptimalWorkers cw qd apt \<le> maxWorkers
         \<and> calculateOptimalWorkers cw 60 apt = min (cw + 2) maxWorkers
         \<and> calculateOptimalWorkers 3 0 apt = 2"
  using assms by (simp add: calculateOptimalWorkers_def minWorkers_def maxWorkers_def)

theorem autoscaler_recommendation_witness:
  "calculateOptimalWorkers 9 60 1000 = 10 \<and> calculateOptimalWorkers 4 20 200000 = 5
   \<and> calculateOptimalWorkers 3 0 1000 = 2 \<and> calculateOptimalWorkers 1 0 1000 = 1
   \<and> calculateOptimalWorkers 7 30 1000 = 7"
  using autoscaler_recommendation [of 9 60 1000] autoscaler_recommendation [of 4 20 200000]
    autoscaler_recommendation [of 3 0 1000] autoscaler_recommendation [of 1 0 1000]
    autoscaler_recommendation [of 7 30 1000]
  by simp

section \<open>Success rate\<close>

text \<open>
  C4, as the specification states it: with no sample in the window the success rate is
  100. The code never returns 100 there. On a repository that rejects the \<^verbatim>\<open>$gte\<close>
  object (a SQL data source) both queries are rejected and \<open>getSuccessRate\<close> throws; on
  a repository that answers, the total is 0 and the guard returns 0.
\<close>

theorem success_rate_empty_counterexample:
  "getSuccessRate False (\<lambda>w. Inl (Error ''QueryFailedError'')) 1700000000000 24 =
     Inl (Error ''QueryFailedError'')
   \<and> getSuccessRate False (\<lambda>w. Inr 0) 1700000000000 24 = Inr (Finite 0)
   \<and> getSuccessRate False (\<lambda>w. Inr 0) 1700000000000 24 \<noteq> Inr (Finite 100)"
  by (simp add: getSuccessRate_def promise_all2_def)

text \<open>
  C4, amended: when both count queries answer, \<open>getSuccessRate\<close> returns 0 if the total
  is zero, the guard avoiding the division by zero (the result is never \<^verbatim>\<open>NaN\<close> nor
  \<^verbatim>\<open>Infinity\<close>), and otherwise the number of samples of status \<open>success\<close> divided by
  the total, times 100. Both queries ask for the samples whose timestamp is at least
  \<open>now - hours * 3600000\<close>.
\<close>

theorem success_rate_amended:
  "(count \<lparr>timestamp_gte = now - hours * 3600000, where_status = None\<rparr> = Inr 0
      \<and> count \<lparr>timestamp_gte = now - hours * 3600000, where_status = Some success\<rparr> = Inr k
      \<longrightarrow> getSuccessRate sf count now hours = Inr (Finite 0))
   \<and> (count \<lparr>timestamp_gte = now - hours * 3600000, where_status = None\<rparr> = Inr n \<and> 0 < n
      \<and> count \<lparr>timestamp_gte = now - hours * 3600000, where_status = Some success\<rparr> = Inr k
      \<longrightarrow> getSuccessRate sf count now hours = Inr (Finite (real k / real n * 100)))
   \<and> getSuccessRate sf count now hours \<noteq> Inr NaN
   \<and> getSuccessRate sf count now hours \<noteq> Inr Infinity"
  by (auto simp: getSuccessRate_def promise_all2_def js_div_def js_times_def Let_def
      mult.commute split: sum.splits)

theorem success_rate_amended_witness:
  "getSuccessRate False
     (\<lambda>w. Inr (case where_status w of None \<Rightarrow> 4 | Some st \<Rightarrow> 2)) 100000000 24 = Inr (Finite 50)
   \<and> getSuccessRate False (\<lambda>w. Inr 0) 100000000 24 = Inr (Finite 0)"
  using success_rate_amended [of "\<lambda>w. Inr (case where_status w of None \<Rightarrow> 4 | Some st \<Rightarrow> 2)"
      100000000 24 2 False 4]
    success_rate_amended [of "\<lambda>w. Inr 0" 100000000 24 0 False 0]
  by simp

section \<open>Enqueueing performs no validation\<close>

text \<open>
  C7, as the specification states it: a payload that lacks a required key makes the
  enqueue fail and adds no job. Neither service checks the payload: a payload without
  \<open>headSha\<close> and \<open>baseSha\<close> is enqueued by both.
\<close>

theorem enqueue_validation_counterexample:
  "missing_required \<lparr>owner = Some ''acme'', repo = Some ''api'', pullNumber = Some 7,
      headSha = None, baseSha = None, priority = None\<rparr>
   \<and> addCodeReviewJob \<lparr>owner = Some ''acme'', repo = Some ''api'', pullNumber = Some 7,
      headSha = None, baseSha = None, priority = None\<rparr> [] =
     Inr [\<lparr>name = ''analyze-pull-request'',
           data = \<lparr>owner = Some ''acme'', repo = Some ''api'', pullNumber = Some 7,
             headSha = None, baseSha = None, priority = None\<rparr>,
           opts = \<lparr>opt_priority = None, attempts = Some 3, backoff = Some (exponential, 2000),
             removeOnComplete = None, removeOnFail = None\<rparr>\<rparr>]
   \<and> addPriorityJob \<lparr>owner = Some ''acme'', repo = Some ''api'', pullNumber = Some 7,
      headSha = None, baseSha = None, priority = None\<rparr> [] =
     Inr [\<lparr>name = ''analyze-pull-request'',
           data = \<lparr>owner = Some ''acme'', repo = Some ''api'', pullNumber = Some 7,
             headSha = None, baseSha = None, priority = None\<rparr>,
           opts = \<lparr>opt_priority = None, attempts = Some 3, backoff = Some (exponential, 2000),
             removeOnComplete = Some 100, removeOnFail = Some 50\<rparr>\<rparr>]"
  by (simp add: missing_required_def addCodeReviewJob_def addPriorityJob_def queue_add_def
      getAttemptsForPriority_def)

text \<open>
  C7, amended: \<open>addCodeReviewJob\<close> and \<open>addPriorityJob\<close> check nothing at run time. For
  every payload, complete or not, each returns normally and the queue grows by exactly
  one job that carries the payload unchanged under the name \<open>analyze-pull-request\<close>.
\<close>

theorem enqueue_never_rejects:
  "(\<exists>j. addCodeReviewJob d q = Inr (q @ [j]) \<and> data j = d \<and> name j = ''analyze-pull-request'')
   \<and> (\<exists>j. addPriorityJob d q = Inr (q @ [j]) \<and> data j = d \<and> name j = ''analyze-pull-request'')"
  by (simp add: addCodeReviewJob_def addPriorityJob_def queue_add_def)

theorem enqueue_never_rejects_witness:
  "(\<exists>j. addCodeReviewJob \<lparr>owner = Some ''acme'', repo = None, pullNumber = None,
          headSha = None, baseSha = None, priority = Some ''high''\<rparr> [] = Inr [j]
        \<and> owner (data j) = Some ''acme'' \<and> repo (data j) = None)
   \<and> (\<exists>j. addPriorityJob \<lparr>owner = Some ''acme'', repo = None, pullNumber = None,
          headSha = None, baseSha = None, priority = Some ''high''\<rparr> [] = Inr [j]
        \<and> owner (data j) = Some ''acme'' \<and> repo (data j) = None)"
  using enqueue_never_rejects [of "\<lparr>owner = Some ''acme'', repo = None, pullNumber = None,
          headSha = None, baseSha = None, priority = Some ''high''\<rparr>" "[]"]
  by auto

section \<open>The lock manager\<close>

lemma acquireLock_eq:
  "0 < ttl \<Longrightarrow> acquireLock now r ttl s =
     (if lookup now s (''lock:'' @ r) = None
      then Inr (True, s(''lock:'' @ r \<mapsto> \<lparr>val = now, expiry = Some (now + ttl)\<rparr>))
      else Inr (False, s))"
  by (auto simp: acquireLock_def redis_set_px_nx_def split: option.splits)

lemma acquireLock_nonpos: "ttl \<le> 0 \<Longrightarrow> \<exists>e. acquireLock now r ttl s = Inl e"
  by (simp add: acquireLock_def redis_set_px_nx_def)

lemma releaseLock_eq: "releaseLock now r s = s(''lock:'' @ r := None)"
  by (simp add: releaseLock_def redis_del_def)

lemma checkRateLimit_other: "snd (checkRateLimit t i l w s) (''lock:'' @ r) = s (''lock:'' @ r)"
  by (auto simp: checkRateLimit_def redis_incr_def redis_expire_def lookup_def Let_def
      split: option.splits prod.splits if_splits)

lemma exec_keeps_live_lock:
  assumes "s (''lock:'' @ r) = Some e" and "live t e" and "c \<noteq> Release r"
  shows "snd (exec t c s) (''lock:'' @ r) = Some e"
proof (cases c)
  case (Acquire r' ttl)
  show ?thesis
  proof (cases "0 < ttl")
    case True
    then show ?thesis using assms Acquire
      by (auto simp: acquireLock_eq lookup_def)
  next
    case False
    then obtain x where "acquireLock t r' ttl s = Inl x"
      using acquireLock_nonpos [of ttl t r' s] by auto
    then show ?thesis using assms Acquire by simp
  qed
next
  case (Release r')
  then show ?thesis using assms by (auto simp: releaseLock_eq)
next
  case (CheckRateLimit i l w)
  then show ?thesis using assms checkRateLimit_other [of t i l w s r]
    by (simp split: prod.splits) (metis snd_conv)
next
  case (GetCurrentUsage i)
  then show ?thesis using assms by simp
qed

lemma run_keeps_live_lock:
  "s (''lock:'' @ r) = Some e \<Longrightarrow> \<forall>t \<in> fst ` set tr. live t e
    \<Longrightarrow> \<forall>c \<in> snd ` set tr. c \<noteq> Release r \<Longrightarrow> run tr s (''lock:'' @ r) = Some e"
proof (induction tr arbitrary: s)
  case Nil
  then show ?case by simp
next
  case (Cons a tr)
  obtain t c where a: "a = (t, c)" by (cases a)
  have "snd (exec t c s) (''lock:'' @ r) = Some e"
    using Cons.prems a by (intro exec_keeps_live_lock) auto
  then show ?case using Cons a by simp
qed

lemma second_acquire_refused:
  assumes "0 < ttl" "0 < ttl'" "acquireLock t1 r ttl s = Inr (True, s1)"
    and "\<forall>t \<in> fst ` set tr. t < t1 + ttl" and "t2 < t1 + ttl"
    and "\<forall>c \<in> snd ` set tr. c \<noteq> Release r"
  shows "acquireLock t2 r ttl' (run tr s1) = Inr (False, run tr s1)"
proof -
  let ?e = "\<lparr>val = t1, expiry = Some (t1 + ttl)\<rparr>"
  have s1: "s1 (''lock:'' @ r) = Some ?e"
    using assms(1,3) by (auto simp: acquireLock_eq split: if_splits)
  have "run tr s1 (''lock:'' @ r) = Some ?e"
    using s1 assms(4,6) by (intro run_keeps_live_lock) (auto simp: live_def)
  then show ?thesis using assms(2,5) by (simp add: acquireLock_eq lookup_def live_def)
qed

lemma unexpired_later: "t \<le> t' \<Longrightarrow> unexpired t' g = filter (\<lambda>x. t' < snd x) (unexpired t g)"
  unfolding unexpired_def by (induction g) auto

lemma lock_inv_later:
  assumes "lock_inv r t s g" and "t \<le> t'"
  shows "lock_inv r t' s g"
proof -
  have eq: "unexpired t' g = filter (\<lambda>x. t' < snd x) (unexpired t g)"
    using assms(2) by (rule unexpired_later)
  have "length (unexpired t' g) \<le> length (unexpired t g)"
    unfolding eq by (rule length_filter_le)
  moreover have "set (unexpired t' g) \<subseteq> set (unexpired t g)"
    unfolding eq by simp
  ultimately show ?thesis
    using assms(1) unfolding lock_inv_def by (meson order_trans subsetD)
qed

lemma lock_inv_same_key:
  "lock_inv r t s g \<Longrightarrow> s' (''lock:'' @ r) = s (''lock:'' @ r) \<Longrightarrow> lock_inv r t s' g"
  unfolding lock_inv_def by simp

lemma lock_inv_grant:
  assumes "lock_inv r t s g" and "0 < ttl" and "lookup t s (''lock:'' @ r) = None"
  shows "lock_inv r t (s(''lock:'' @ r \<mapsto> \<lparr>val = v, expiry = Some (t + ttl)\<rparr>)) (g @ [(t, t + ttl)])"
proof -
  have "unexpired t g = []"
  proof (cases "unexpired t g")
    case Nil
    then show ?thesis .
  next
    case (Cons x xs)
    then have x: "x \<in> set (unexpired t g)" by simp
    then obtain e where e: "s (''lock:'' @ r) = Some e" "expiry e = Some (snd x)"
      using assms(1) unfolding lock_inv_def by blast
    have "t < snd x" using x by (simp add: unexpired_def)
    then have "lookup t s (''lock:'' @ r) = Some e"
      using e unfolding lookup_def live_def by simp
    then show ?thesis using assms(3) by simp
  qed
  then have "unexpired t (g @ [(t, t + ttl)]) = [(t, t + ttl)]"
    using assms(2) unfolding unexpired_def by simp
  then show ?thesis unfolding lock_inv_def by simp
qed

lemma exec_acquire_granted:
  "0 < ttl \<Longrightarrow> lookup t s (''lock:'' @ r) = None \<Longrightarrow>
   exec t (Acquire r ttl) s = (RBool True, s(''lock:'' @ r \<mapsto> \<lparr>val = t, expiry = Some (t + ttl)\<rparr>))"
  by (simp add: acquireLock_eq)

lemma exec_acquire_refused:
  "0 < ttl \<Longrightarrow> lookup t s (''lock:'' @ r) \<noteq> None \<Longrightarrow> exec t (Acquire r ttl) s = (RBool False, s)"
  by (simp add: acquireLock_eq)

lemma exec_acquire_threw:
  "ttl \<le> 0 \<Longrightarrow> \<exists>e. exec t (Acquire r ttl) s = (RThrow e, s)"
  using acquireLock_nonpos [of ttl t r s] by auto

lemma step_acquire:
  assumes "lock_inv r t s g"
  shows "lock_inv r t (snd (exec t (Acquire r' ttl) s))
           (grant_step r t (Acquire r' ttl) (fst (exec t (Acquire r' ttl) s)) g)"
proof -
  consider (threw) "ttl \<le> 0" | (refused) "0 < ttl" "lookup t s (''lock:'' @ r') \<noteq> None"
    | (granted) "0 < ttl" "lookup t s (''lock:'' @ r') = None"
    by fastforce
  then show ?thesis
  proof cases
    case threw
    then obtain x where ex: "exec t (Acquire r' ttl) s = (RThrow x, s)"
      using exec_acquire_threw [of ttl t r' s] by blast
    have "grant_step r t (Acquire r' ttl) (RThrow x) g = g" by simp
    then show ?thesis using assms unfolding ex by (simp only: fst_conv snd_conv)
  next
    case refused
    then have ex: "exec t (Acquire r' ttl) s = (RBool False, s)"
      by (rule exec_acquire_refused)
    have "grant_step r t (Acquire r' ttl) (RBool False) g = g" by simp
    then show ?thesis using assms unfolding ex by (simp only: fst_conv snd_conv)
  next
    case granted
    let ?s' = "s(''lock:'' @ r' \<mapsto> \<lparr>val = t, expiry = Some (t + ttl)\<rparr>)"
    have ex: "exec t (Acquire r' ttl) s = (RBool True, ?s')"
      using granted by (rule exec_acquire_granted)
    show ?thesis
    proof (cases "r' = r")
      case True
      have g: "grant_step r t (Acquire r' ttl) (RBool True) g = g @ [(t, t + ttl)]"
        using True by simp
      have "lock_inv r t (s(''lock:'' @ r \<mapsto> \<lparr>val = t, expiry = Some (t + ttl)\<rparr>)) (g @ [(t, t + ttl)])"
        using assms granted True by (intro lock_inv_grant) simp_all
      then have "lock_inv r t ?s' (g @ [(t, t + ttl)])" unfolding True .
      then show ?thesis unfolding ex by (simp only: fst_conv snd_conv g)
    next
      case False
      have g: "grant_step r t (Acquire r' ttl) (RBool True) g = g"
        using False by simp
      have "?s' (''lock:'' @ r) = s (''lock:'' @ r)" using False by simp
      with assms have "lock_inv r t ?s' g" by (rule lock_inv_same_key)
      then show ?thesis unfolding ex by (simp only: fst_conv snd_conv g)
    qed
  qed
qed

lemma step_release:
  assumes "lock_inv r t s g"
  shows "lock_inv r t (snd (exec t (Release r') s))
           (grant_step r t (Release r') (fst (exec t (Release r') s)) g)"
proof (cases "r' = r")
  case True
  have "lock_inv r t (releaseLock t r' s) []"
    unfolding lock_inv_def unexpired_def by simp
  then show ?thesis using True by simp
next
  case False
  have "releaseLock t r' s (''lock:'' @ r) = s (''lock:'' @ r)"
    using False by (simp add: releaseLock_eq)
  with assms have "lock_inv r t (releaseLock t r' s) g" by (rule lock_inv_same_key)
  then show ?thesis using False by simp
qed

lemma step_rate:
  assumes "lock_inv r t s g"
  shows "lock_inv r t (snd (exec t (CheckRateLimit i l w) s))
           (grant_step r t (CheckRateLimit i l w) (fst (exec t (CheckRateLimit i l w) s)) g)"
proof -
  have "lock_inv r t (snd (checkRateLimit t i l w s)) g"
    using assms checkRateLimit_other [of t i l w s r] by (rule lock_inv_same_key)
  moreover have "snd (exec t (CheckRateLimit i l w) s) = snd (checkRateLimit t i l w s)"
    by (cases "checkRateLimit t i l w s") simp
  ultimately show ?thesis by simp
qed

lemma lock_inv_step:
  assumes "lock_inv r t s g"
  shows "lock_inv r t (snd (exec t c s)) (grant_step r t c (fst (exec t c s)) g)"
proof (cases c)
  case (Acquire r' ttl)
  then show ?thesis using step_acquire [OF assms] by blast
next
  case (Release r')
  then show ?thesis using step_release [OF assms] by blast
next
  case (CheckRateLimit i l w)
  then show ?thesis using step_rate [OF assms] by blast
next
  case (GetCurrentUsage i)
  then show ?thesis using assms by simp
qed

lemma holders_inv:
  "sorted (map fst tr) \<Longrightarrow> \<forall>t \<in> fst ` set tr. t0 \<le> t \<and> t \<le> now \<Longrightarrow> t0 \<le> now
    \<Longrightarrow> lock_inv r t0 s g \<Longrightarrow> lock_inv r now (run tr s) (holders r tr s g)"
proof (induction tr arbitrary: s g t0)
  case Nil
  then show ?case using lock_inv_later [of r t0 s g now] by simp
next
  case (Cons a tr)
  obtain t c where a: "a = (t, c)" by (cases a)
  have t: "t0 \<le> t" "t \<le> now" using Cons.prems(2) a by simp_all
  have "lock_inv r t s g" using Cons.prems(4) t(1) by (rule lock_inv_later)
  then have step: "lock_inv r t (snd (exec t c s)) (grant_step r t c (fst (exec t c s)) g)"
    by (rule lock_inv_step)
  have srt: "sorted (map fst tr)" using Cons.prems(1) by simp
  have bnd: "\<forall>u \<in> fst ` set tr. t \<le> u \<and> u \<le> now"
    using Cons.prems(1,2) a by simp
  have "lock_inv r now (run tr (snd (exec t c s)))
          (holders r tr (snd (exec t c s)) (grant_step r t c (fst (exec t c s)) g))"
    using srt bnd t(2) step by (rule Cons.IH)
  then show ?case unfolding a by simp
qed

lemma at_most_one_holder:
  assumes "sorted (map fst tr)" and "\<forall>t \<in> fst ` set tr. t \<le> now"
  shows "length (unexpired now (holders r tr s [])) \<le> 1"
proof -
  define t0 where "t0 = (case tr of [] \<Rightarrow> now | a # _ \<Rightarrow> fst a)"
  have lo: "\<forall>t \<in> fst ` set tr. t0 \<le> t \<and> t \<le> now"
    using assms by (cases tr) (simp_all add: t0_def)
  have t0: "t0 \<le> now" using assms(2) by (cases tr) (simp_all add: t0_def)
  have "lock_inv r t0 s []" unfolding lock_inv_def unexpired_def by simp
  with assms(1) lo t0 have "lock_inv r now (run tr s) (holders r tr s [])"
    by (rule holders_inv)
  then show ?thesis unfolding lock_inv_def by simp
qed

lemmas redis_model_defs =
  acquireLock_def releaseLock_def checkRateLimit_def getCurrentUsage_def
  redis_set_px_nx_def redis_del_def redis_incr_def redis_expire_def redis_get_def
  lookup_def live_def unexpired_def

text \<open>
  C1, as the specification states it: two acquire calls on the same key within one time
  to live never both return true, and acquire returns false whenever an unexpired lock
  exists. A release between the two calls (the one the \<^verbatim>\<open>finally\<close> block of a duplicate
  job performs) clears the key: the lock is granted at 1000, refused at 2000, released at
  2000 and granted again at 3000, well inside the 300000 ms of the first grant. And with
  a time to live of 0 the call on a held key throws instead of returning false.
\<close>

theorem lock_reacquired_after_release_counterexample:
  "replies [(1000, Acquire ''pr:acme/api:7'' 300000), (2000, Acquire ''pr:acme/api:7'' 300000),
            (2000, Release ''pr:acme/api:7''), (3000, Acquire ''pr:acme/api:7'' 300000)]
     Map.empty = [RBool True, RBool False, RVoid, RBool True]
   \<and> (3000 :: int) < 1000 + 300000
   \<and> acquireLock 2000 ''pr:acme/api:7'' 0
        [''lock:pr:acme/api:7'' \<mapsto> \<lparr>val = 1000, expiry = Some 301000\<rparr>] =
       Inl (ReplyError ''ERR invalid expire time in set command'')"
  by (simp add: redis_model_defs)

text \<open>
  C1, amended. For every resource key and every positive time to live, \<open>acquireLock\<close>
  returns true, writing the lock entry (value \<open>now\<close>, expiry \<open>now + ttl\<close>), exactly when
  no unexpired lock entry exists for the key at the call; otherwise it returns false and
  leaves the store as it was. With a time to live that is not positive the call throws.
  Consequently, after every history of calls whose instants do not decrease, at most one
  grant of the key is unexpired and not cleared by a release; and when an acquire
  returned true, an acquire on the same key within the time to live returns false unless
  a release of that key ran in between.
\<close>

theorem lock_acquire_mutual_exclusion:
  "(0 < ttl \<longrightarrow>
      acquireLock now r ttl s =
        (if lookup now s (''lock:'' @ r) = None
         then Inr (True, s(''lock:'' @ r \<mapsto> \<lparr>val = now, expiry = Some (now + ttl)\<rparr>))
         else Inr (False, s)))
   \<and> (sorted (map fst tr) \<and> (\<forall>t \<in> fst ` set tr. t \<le> now)
        \<longrightarrow> length (unexpired now (holders r tr s0 [])) \<le> 1)
   \<and> (0 < ttl \<and> 0 < ttl' \<and> acquireLock t1 r ttl s = Inr (True, s1)
        \<and> (\<forall>t \<in> fst ` set mid. t < t1 + ttl) \<and> t2 < t1 + ttl
        \<and> (\<forall>c \<in> snd ` set mid. c \<noteq> Release r)
        \<longrightarrow> acquireLock t2 r ttl' (run mid s1) = Inr (False, run mid s1))
   \<and> (ttl \<le> 0 \<longrightarrow>
        acquireLock now r ttl s = Inl (ReplyError ''ERR invalid expire time in set command''))"
proof -
  have "acquireLock now r ttl s = Inl (ReplyError ''ERR invalid expire time in set command'')"
    if "ttl \<le> 0"
    using that by (simp add: acquireLock_def redis_set_px_nx_def)
  then show ?thesis
    using acquireLock_eq [of ttl now r s] at_most_one_holder [of tr now r s0]
      second_acquire_refused [of ttl ttl' t1 r s s1 mid t2]
    by blast
qed

theorem lock_acquire_mutual_exclusion_witness:
  "acquireLock 5000 ''pr:acme/api:7'' 300000 Map.empty =
     Inr (True, [''lock:pr:acme/api:7'' \<mapsto> \<lparr>val = 5000, expiry = Some 305000\<rparr>])
   \<and> length (unexpired 5000 (holders ''pr:acme/api:7''
        [(1000, Acquire ''pr:acme/api:7'' 300000), (2000, Acquire ''pr:acme/api:7'' 300000),
         (3000, Release ''pr:acme/api:7''), (4000, Acquire ''pr:acme/api:7'' 300000)]
        Map.empty [])) \<le> 1
   \<and> acquireLock 1000 ''pr:acme/api:7'' 300000 Map.empty =
       Inr (True, [''lock:pr:acme/api:7'' \<mapsto> \<lparr>val = 1000, expiry = Some 301000\<rparr>])
   \<and> acquireLock 2000 ''pr:acme/api:7'' 300000
         (run [(1500, CheckRateLimit ''github:acme'' 100 3600)]
            [''lock:pr:acme/api:7'' \<mapsto> \<lparr>val = 1000, expiry = Some 301000\<rparr>]) =
       Inr (False, run [(1500, CheckRateLimit ''github:acme'' 100 3600)]
            [''lock:pr:acme/api:7'' \<mapsto> \<lparr>val = 1000, expiry = Some 301000\<rparr>])
   \<and> acquireLock 2000 ''pr:acme/api:7'' 0
         [''lock:pr:acme/api:7'' \<mapsto> \<lparr>val = 1000, expiry = Some 301000\<rparr>] =
       Inl (ReplyError ''ERR invalid expire time in set command'')"
proof -
  have a: "acquireLock 1000 ''pr:acme/api:7'' 300000 Map.empty =
       Inr (True, [''lock:pr:acme/api:7'' \<mapsto> \<lparr>val = 1000, expiry = Some 301000\<rparr>])"
    by (simp add: redis_model_defs)
  have b: "acquireLock 5000 ''pr:acme/api:7'' 300000 Map.empty =
     Inr (True, [''lock:pr:acme/api:7'' \<mapsto> \<lparr>val = 5000, expiry = Some 305000\<rparr>])"
    by (simp add: redis_model_defs)
  show ?thesis
    using a b lock_acquire_mutual_exclusion [of 300000 5000 "''pr:acme/api:7''" Map.empty
      "[(1000, Acquire ''pr:acme/api:7'' 300000), (2000, Acquire ''pr:acme/api:7'' 300000),
         (3000, Release ''pr:acme/api:7''), (4000, Acquire ''pr:acme/api:7'' 300000)]"
      Map.empty 300000 1000
      "[''lock:pr:acme/api:7'' \<mapsto> \<lparr>val = 1000, expiry = Some 301000\<rparr>]"
      "[(1500, CheckRateLimit ''github:acme'' 100 3600)]" 2000]
      lock_acquire_mutual_exclusion [of 0 2000 "''pr:acme/api:7''"
        "[''lock:pr:acme/api:7'' \<mapsto> \<lparr>val = 1000, expiry = Some 301000\<rparr>]"]
    by simp
qed

text \<open>
  C8. \<open>releaseLock\<close> deletes the lock entry of the key whatever its value; releasing
  twice is releasing once; releasing a key that has no entry (or only an expired one)
  changes nothing a later command can see; and after a release an acquire on the key
  with a positive time to live succeeds at once.
\<close>

theorem release_lock_idempotent:
  "releaseLock now r s = s(''lock:'' @ r := None)
   \<and> releaseLock now' r (releaseLock now r s) = releaseLock now r s
   \<and> (s (''lock:'' @ r) = None \<longrightarrow> releaseLock now r s = s)
   \<and> (lookup now s (''lock:'' @ r) = None \<and> now \<le> t
        \<longrightarrow> lookup t (releaseLock now r s) k = lookup t s k)
   \<and> (0 < ttl \<longrightarrow>
        acquireLock t r ttl (releaseLock now r s) =
          Inr (True, (releaseLock now r s)(''lock:'' @ r \<mapsto> \<lparr>val = t, expiry = Some (t + ttl)\<rparr>)))"
proof -
  have absent: "releaseLock now r s = s" if "s (''lock:'' @ r) = None"
    using that unfolding releaseLock_eq by (simp add: fun_upd_idem)
  have unseen: "lookup t (releaseLock now r s) k = lookup t s k"
    if "lookup now s (''lock:'' @ r) = None" "now \<le> t"
    using that unfolding releaseLock_eq
    by (auto simp: lookup_def live_def split: option.splits if_splits)
  have after: "acquireLock t r ttl (releaseLock now r s) =
      Inr (True, (releaseLock now r s)(''lock:'' @ r \<mapsto> \<lparr>val = t, expiry = Some (t + ttl)\<rparr>))"
    if "0 < ttl"
    using that by (simp add: acquireLock_eq) (simp add: releaseLock_eq lookup_def)
  show ?thesis
    using absent unseen after by (simp add: releaseLock_eq)
qed

theorem release_lock_idempotent_witness:
  "releaseLock 2000 ''pr:acme/api:7'' [''lock:pr:acme/api:7'' \<mapsto> \<lparr>val = 1000, expiry = Some 301000\<rparr>]
     = Map.empty
   \<and> releaseLock 2000 ''pr:acme/api:7'' Map.empty = Map.empty
   \<and> acquireLock 2500 ''pr:acme/api:7'' 300000
         (releaseLock 2000 ''pr:acme/api:7''
            [''lock:pr:acme/api:7'' \<mapsto> \<lparr>val = 1000, expiry = Some 301000\<rparr>]) =
       Inr (True, [''lock:pr:acme/api:7'' \<mapsto> \<lparr>val = 2500, expiry = Some 302500\<rparr>])"
proof -
  have held: "releaseLock 2000 ''pr:acme/api:7''
      [''lock:pr:acme/api:7'' \<mapsto> \<lparr>val = 1000, expiry = Some 301000\<rparr>] = Map.empty"
    using release_lock_idempotent [of 2000 "''pr:acme/api:7''"
      "[''lock:pr:acme/api:7'' \<mapsto> \<lparr>val = 1000, expiry = Some 301000\<rparr>]" 2000 2500
      "''lock:pr:acme/api:7''" 300000]
    by simp
  have absent: "releaseLock 2000 ''pr:acme/api:7'' Map.empty = Map.empty"
    using release_lock_idempotent [of 2000 "''pr:acme/api:7''" Map.empty 2000 2500
      "''lock:pr:acme/api:7''" 300000]
    by simp
  have again: "acquireLock 2500 ''pr:acme/api:7'' 300000 Map.empty =
       Inr (True, [''lock:pr:acme/api:7'' \<mapsto> \<lparr>val = 2500, expiry = Some 302500\<rparr>])"
    using release_lock_idempotent [of 2000 "''pr:acme/api:7''" Map.empty 2000 2500
      "''lock:pr:acme/api:7''" 300000] absent
    by simp
  show ?thesis using held absent again by simp
qed

section \<open>The rate limiter\<close>

lemma checkRateLimit_fresh:
  assumes "lookup now s (''rate_limit:'' @ i) = None" and "0 < w"
  shows "checkRateLimit now i l w s =
           (1 \<le> l, s(''rate_limit:'' @ i \<mapsto> \<lparr>val = 1, expiry = Some (now + w * 1000)\<rparr>))"
  using assms
  by (simp add: checkRateLimit_def redis_incr_def redis_expire_def lookup_def live_def)

lemma checkRateLimit_counting:
  assumes "s (''rate_limit:'' @ i) = Some e" and "live now e" and "val e \<noteq> 0"
  shows "checkRateLimit now i l w s =
           (val e + 1 \<le> l, s(''rate_limit:'' @ i \<mapsto> e\<lparr>val := val e + 1\<rparr>))"
  using assms
  by (simp add: checkRateLimit_def redis_incr_def lookup_def)

lemma checkRateLimit_decision:
  "fst (checkRateLimit now i l w s) = (getCurrentUsage now i s + 1 \<le> l)"
  by (simp add: checkRateLimit_def redis_incr_def getCurrentUsage_def redis_get_def Let_def
      split: option.splits prod.splits)

lemma checkRateLimit_count:
  "0 < w \<Longrightarrow> getCurrentUsage now i (snd (checkRateLimit now i l w s)) = getCurrentUsage now i s + 1"
  by (auto simp: checkRateLimit_def redis_incr_def redis_expire_def getCurrentUsage_def
      redis_get_def lookup_def live_def Let_def split: option.splits if_splits)

lemma checkRateLimit_sets_expiry:
  "0 < w \<Longrightarrow> getCurrentUsage now i s = 0 \<Longrightarrow>
   map_option expiry (snd (checkRateLimit now i l w s) (''rate_limit:'' @ i)) = Some (Some (now + w * 1000))"
  by (auto simp: checkRateLimit_def redis_incr_def redis_expire_def getCurrentUsage_def
      redis_get_def lookup_def live_def Let_def split: option.splits if_splits)

lemma checkRateLimit_keeps_expiry:
  "getCurrentUsage now i s \<noteq> 0 \<Longrightarrow>
   map_option expiry (snd (checkRateLimit now i l w s) (''rate_limit:'' @ i)) =
   map_option expiry (s (''rate_limit:'' @ i))"
  by (auto simp: checkRateLimit_def redis_incr_def redis_expire_def getCurrentUsage_def
      redis_get_def lookup_def live_def Let_def split: option.splits if_splits)


lemma checkRateLimit_calls_counting:
  "s (''rate_limit:'' @ i) = Some \<lparr>val = n, expiry = Some x\<rparr> \<Longrightarrow> 0 < n \<Longrightarrow> \<forall>t \<in> set ts. t < x
   \<Longrightarrow> checkRateLimit_calls ts i l w s =
         (map (\<lambda>k. n + int k + 1 \<le> l) [0..<length ts],
          s(''rate_limit:'' @ i \<mapsto> \<lparr>val = n + int (length ts), expiry = Some x\<rparr>))"
proof (induction ts arbitrary: s n)
  case Nil
  then show ?case by (simp add: fun_upd_idem)
next
  case (Cons t ts)
  let ?k = "''rate_limit:'' @ i"
  let ?s1 = "s(?k \<mapsto> \<lparr>val = n + 1, expiry = Some x\<rparr>)"
  have lv: "live t \<lparr>val = n, expiry = Some x\<rparr>" using Cons.prems(3) by (simp add: live_def)
  have one: "checkRateLimit t i l w s = (n + 1 \<le> l, ?s1)"
    using checkRateLimit_counting [of s i "\<lparr>val = n, expiry = Some x\<rparr>" t l w]
      Cons.prems(1,2) lv by simp
  have rest: "checkRateLimit_calls ts i l w ?s1 =
      (map (\<lambda>k. (n + 1) + int k + 1 \<le> l) [0..<length ts],
       ?s1(?k \<mapsto> \<lparr>val = (n + 1) + int (length ts), expiry = Some x\<rparr>))"
    using Cons.prems(2,3) by (intro Cons.IH) simp_all
  have m: "map (\<lambda>k. n + int k + 1 \<le> l) [0..<length (t # ts)] =
      (n + 1 \<le> l) # map (\<lambda>k. (n + 1) + int k + 1 \<le> l) [0..<length ts]"
    by (simp add: upt_rec [of 0] map_Suc_upt [symmetric] del: upt_Suc) 
  have v: "(n + 1) + int (length ts) = n + int (length (t # ts))" by simp
  show ?case unfolding m using one rest unfolding v by (auto simp: fun_eq_iff)
qed


lemma six_rapid_calls:
  assumes fresh: "lookup t1 s (''rate_limit:'' @ i) = None"
    and rapid: "t2 < t1 + 60000" "t3 < t1 + 60000" "t4 < t1 + 60000" "t5 < t1 + 60000"
      "t6 < t1 + 60000"
    and later: "t1 + 60000 \<le> t7"
  shows "checkRateLimit_calls [t1, t2, t3, t4, t5, t6] i 5 60 s =
           ([True, True, True, True, True, False],
            s(''rate_limit:'' @ i \<mapsto> \<lparr>val = 6, expiry = Some (t1 + 60000)\<rparr>))"
    and "getCurrentUsage t6 i (s(''rate_limit:'' @ i \<mapsto> \<lparr>val = 6, expiry = Some (t1 + 60000)\<rparr>)) = 6"
    and "checkRateLimit t7 i 5 60 (s(''rate_limit:'' @ i \<mapsto> \<lparr>val = 6, expiry = Some (t1 + 60000)\<rparr>)) =
           (True, s(''rate_limit:'' @ i \<mapsto> \<lparr>val = 1, expiry = Some (t7 + 60000)\<rparr>))"
proof -
  let ?k = "''rate_limit:'' @ i"
  let ?s1 = "s(?k \<mapsto> \<lparr>val = 1, expiry = Some (t1 + 60000)\<rparr>)"
  let ?s6 = "s(?k \<mapsto> \<lparr>val = 6, expiry = Some (t1 + 60000)\<rparr>)"
  have first: "checkRateLimit t1 i 5 60 s = (True, ?s1)"
    using checkRateLimit_fresh [OF fresh, of 60 5] by simp
  have "checkRateLimit_calls [t2, t3, t4, t5, t6] i 5 60 ?s1 =
      (map (\<lambda>k. 1 + int k + 1 \<le> 5) [0..<length [t2, t3, t4, t5, t6]],
       ?s1(?k \<mapsto> \<lparr>val = 1 + int (length [t2, t3, t4, t5, t6]), expiry = Some (t1 + 60000)\<rparr>))"
    using rapid by (intro checkRateLimit_calls_counting) simp_all
  moreover have "map (\<lambda>k. 1 + int k + 1 \<le> (5::int)) [0..<length [t2, t3, t4, t5, t6]] =
      [True, True, True, True, False]"
    by (simp add: upt_rec)
  ultimately have others: "checkRateLimit_calls [t2, t3, t4, t5, t6] i 5 60 ?s1 =
      ([True, True, True, True, False], ?s6)"
    by simp
  show "checkRateLimit_calls [t1, t2, t3, t4, t5, t6] i 5 60 s =
           ([True, True, True, True, True, False], ?s6)"
    using first others by simp
  show "getCurrentUsage t6 i ?s6 = 6"
    using rapid(5) by (simp add: getCurrentUsage_def redis_get_def lookup_def live_def)
  have gone: "lookup t7 ?s6 ?k = None"
    using later by (simp add: lookup_def live_def)
  show "checkRateLimit t7 i 5 60 ?s6 =
      (True, s(?k \<mapsto> \<lparr>val = 1, expiry = Some (t7 + 60000)\<rparr>))"
    using checkRateLimit_fresh [OF gone, of 60 5] by simp
qed

text \<open>
  C3. \<open>checkRateLimit\<close> always increments the counter of the identifier (a missing or
  expired counter counts as 0); it sets the expiry of the window, to \<open>now + window\<close>
  seconds, only when the count after the increment is 1, and leaves the expiry as it was
  otherwise; it returns true exactly when the count after the increment is at most the
  limit. For a fresh identifier, limit 5 and window 60, six calls inside the window return
  true five times and then false, the refused call being counted (the count is 6); the
  first call after the window has run out returns true and the count is 1 again. (The
  stored count and expiry are stated for a positive window: \<^verbatim>\<open>EXPIRE\<close> with a
  non-positive time deletes the key.)
\<close>

theorem check_rate_limit_fail_counted:
  "fst (checkRateLimit now i l w s) = (getCurrentUsage now i s + 1 \<le> l)
   \<and> (0 < w \<longrightarrow>
        getCurrentUsage now i (snd (checkRateLimit now i l w s)) = getCurrentUsage now i s + 1)
   \<and> (0 < w \<and> getCurrentUsage now i s + 1 = 1 \<longrightarrow>
        map_option expiry (snd (checkRateLimit now i l w s) (''rate_limit:'' @ i)) =
          Some (Some (now + w * 1000)))
   \<and> (getCurrentUsage now i s + 1 \<noteq> 1 \<longrightarrow>
        map_option expiry (snd (checkRateLimit now i l w s) (''rate_limit:'' @ i)) =
          map_option expiry (s (''rate_limit:'' @ i)))
   \<and> (lookup t1 s (''rate_limit:'' @ i) = None
        \<and> t2 < t1 + 60000 \<and> t3 < t1 + 60000 \<and> t4 < t1 + 60000 \<and> t5 < t1 + 60000
        \<and> t6 < t1 + 60000 \<and> t1 + 60000 \<le> t7 \<longrightarrow>
        fst (checkRateLimit_calls [t1, t2, t3, t4, t5, t6] i 5 60 s) =
          [True, True, True, True, True, False]
        \<and> getCurrentUsage t6 i (snd (checkRateLimit_calls [t1, t2, t3, t4, t5, t6] i 5 60 s)) = 6
        \<and> fst (checkRateLimit t7 i 5 60
                 (snd (checkRateLimit_calls [t1, t2, t3, t4, t5, t6] i 5 60 s)))
        \<and> getCurrentUsage t7 i (snd (checkRateLimit t7 i 5 60
                 (snd (checkRateLimit_calls [t1, t2, t3, t4, t5, t6] i 5 60 s)))) = 1)"
proof -
  have scenario: "fst (checkRateLimit_calls [t1, t2, t3, t4, t5, t6] i 5 60 s) =
          [True, True, True, True, True, False]
        \<and> getCurrentUsage t6 i (snd (checkRateLimit_calls [t1, t2, t3, t4, t5, t6] i 5 60 s)) = 6
        \<and> fst (checkRateLimit t7 i 5 60
                 (snd (checkRateLimit_calls [t1, t2, t3, t4, t5, t6] i 5 60 s)))
        \<and> getCurrentUsage t7 i (snd (checkRateLimit t7 i 5 60
                 (snd (checkRateLimit_calls [t1, t2, t3, t4, t5, t6] i 5 60 s)))) = 1"
    if h: "lookup t1 s (''rate_limit:'' @ i) = None" "t2 < t1 + 60000" "t3 < t1 + 60000"
      "t4 < t1 + 60000" "t5 < t1 + 60000" "t6 < t1 + 60000" "t1 + 60000 \<le> t7"
  proof -
    note six = six_rapid_calls [OF h]
    have "getCurrentUsage t7 i
        (s(''rate_limit:'' @ i \<mapsto> \<lparr>val = 1, expiry = Some (t7 + 60000)\<rparr>)) = 1"
      by (simp add: getCurrentUsage_def redis_get_def lookup_def live_def)
    then show ?thesis unfolding six(1) snd_conv fst_conv six(3) using six(2) by simp
  qed
  show ?thesis
    using checkRateLimit_decision [of now i l w s] checkRateLimit_count [of w now i l s]
      checkRateLimit_sets_expiry [of w now i s l] checkRateLimit_keeps_expiry [of now i s l w]
      scenario
    by simp
qed

theorem check_rate_limit_fail_counted_witness:
  "checkRateLimit_calls [0, 10, 20, 30, 40, 50] ''github:acme'' 5 60 Map.empty =
     ([True, True, True, True, True, False],
      [''rate_limit:github:acme'' \<mapsto> \<lparr>val = 6, expiry = Some 60000\<rparr>])
   \<and> fst (checkRateLimit_calls [0, 10, 20, 30, 40, 50] ''github:acme'' 5 60 Map.empty) =
       [True, True, True, True, True, False]
   \<and> getCurrentUsage 50 ''github:acme''
       (snd (checkRateLimit_calls [0, 10, 20, 30, 40, 50] ''github:acme'' 5 60 Map.empty)) = 6
   \<and> fst (checkRateLimit 60000 ''github:acme'' 5 60
       (snd (checkRateLimit_calls [0, 10, 20, 30, 40, 50] ''github:acme'' 5 60 Map.empty)))
   \<and> getCurrentUsage 60000 ''github:acme'' (snd (checkRateLimit 60000 ''github:acme'' 5 60
       (snd (checkRateLimit_calls [0, 10, 20, 30, 40, 50] ''github:acme'' 5 60 Map.empty)))) = 1"
proof -
  have run: "checkRateLimit_calls [0, 10, 20, 30, 40, 50] ''github:acme'' 5 60 Map.empty =
     ([True, True, True, True, True, False],
      [''rate_limit:github:acme'' \<mapsto> \<lparr>val = 6, expiry = Some 60000\<rparr>])"
    by (simp add: redis_model_defs)
  have fresh: "lookup 0 Map.empty (''rate_limit:'' @ ''github:acme'') = None"
    by (simp add: lookup_def)
  show ?thesis
    using run fresh
      check_rate_limit_fail_counted [of 0 "''github:acme''" 5 60 Map.empty 0 10 20 30 40 50 60000]
    by simp
qed

section \<open>The analyzer degrades instead of failing\<close>

lemma trim_empty_iff: "trim s = [] \<longleftrightarrow> (\<forall>c \<in> set s. isWhiteSpace c)"
proof
  assume "trim s = []"
  then have "\<forall>c \<in> set (dropWhile isWhiteSpace s). isWhiteSpace c"
    by (simp add: trim_def dropWhile_eq_Nil_conv)
  then have "dropWhile isWhiteSpace s = []"
    by (metis dropWhile_eq_Nil_conv dropWhile_idem)
  then show "\<forall>c \<in> set s. isWhiteSpace c"
    unfolding dropWhile_eq_Nil_conv .
next
  assume "\<forall>c \<in> set s. isWhiteSpace c"
  then show "trim s = []"
    unfolding trim_def by (auto dest: set_dropWhileD)
qed

text \<open>
  C10. \<open>analyzeCode\<close> never throws to its caller. For a diff that is empty or consists of
  white space only it returns the fixed result \<open>No code changes detected\<close>, with no
  issues and no positives, and the AI service is not called. Whenever the AI analysis
  throws, it returns the degraded result: the issues are exactly those of the heuristic
  analysis of the diff, the summary is
  \<open>Analysis completed with basic checks only (AI analysis unavailable)\<close>, and there
  are no positives.
\<close>

theorem analyze_code_never_throws:
  "(\<exists>result. fst (analyzeCode ai diff) = Inr result)
   \<and> (diff = [] \<or> (\<forall>c \<in> set diff. isWhiteSpace c) \<longrightarrow>
        analyzeCode ai diff =
          (Inr \<lparr>summary = lit ''No code changes detected'', issues = [], positives = []\<rparr>, []))
   \<and> (\<not> (\<forall>c \<in> set diff. isWhiteSpace c) \<and> ai diff = Inl e \<longrightarrow>
        analyzeCode ai diff =
          (Inr \<lparr>summary = lit ''Analysis completed with basic checks only (AI analysis unavailable)'',
                issues = performHeuristicAnalysis diff, positives = []\<rparr>, [diff]))"
proof -
  have blank: "(diff = [] \<or> length (trim diff) = 0) \<longleftrightarrow> (\<forall>c \<in> set diff. isWhiteSpace c)"
    using trim_empty_iff [of diff] by auto
  show ?thesis
  proof (cases "\<forall>c \<in> set diff. isWhiteSpace c")
    case True
    then have "analyzeCode_try ai diff =
        (Inr \<lparr>summary = lit ''No code changes detected'', issues = [], positives = []\<rparr>, [])"
      using blank unfolding analyzeCode_try_def by simp
    then show ?thesis using True by (simp add: analyzeCode_def)
  next
    case False
    then have nb: "\<not> (diff = [] \<or> length (trim diff) = 0)" using blank by simp
    show ?thesis
    proof (cases "ai diff")
      case (Inl x)
      then have "analyzeCode_try ai diff = (Inl x, [diff])"
        using nb unfolding analyzeCode_try_def by simp
      then show ?thesis using False Inl by (auto simp: analyzeCode_def)
    next
      case (Inr a)
      then have "\<exists>r. analyzeCode_try ai diff = (Inr r, [diff])"
        using nb unfolding analyzeCode_try_def by (simp add: Let_def)
      then show ?thesis using False Inr by (auto simp: analyzeCode_def)
    qed
  qed
qed

lemmas analysis_defs =
  performHeuristicAnalysis_def heuristic_loop.simps line_issues_def containsSecurityRisk_def
  securityPatterns_def hasErrorHandling_def test_at_def startsWith_def trim_def
  isWhiteSpace_def toString.simps lit_def

theorem analyze_code_never_throws_witness:
  "analyzeCode (\<lambda>d. Inl (Error ''Failed to analyze code with OpenAI'')) (lit '' '' @ [10, 9]) =
     (Inr \<lparr>summary = lit ''No code changes detected'', issues = [], positives = []\<rparr>, [])
   \<and> analyzeCode (\<lambda>d. Inl (Error ''Failed to analyze code with OpenAI''))
        (lit ''+await run(x)'' @ [10] @ lit ''+eval (y) // TODO'') =
     (Inr \<lparr>summary = lit ''Analysis completed with basic checks only (AI analysis unavailable)'',
           issues =
             [\<lparr>type = bug, severity = medium,
               message = lit ''Async operation without error handling'',
               line = Some (lit ''1''),
               suggestion = lit ''Add try-catch block or proper error handling''\<rparr>,
              \<lparr>type = security, severity = high,
               message = lit ''Potential security risk detected'',
               line = Some (lit ''2''),
               suggestion = lit ''Review for security implications and add proper validation''\<rparr>,
              \<lparr>type = best_practice, severity = low,
               message = lit ''TODO/FIXME comment found'',
               line = Some (lit ''2''),
               suggestion = lit ''Consider creating a proper issue tracker item''\<rparr>],
           positives = []\<rparr>,
      [lit ''+await run(x)'' @ [10] @ lit ''+eval (y) // TODO''])"
proof -
  let ?ai = "\<lambda>d :: jsstring. (Inl (Error ''Failed to analyze code with OpenAI'') :: exn + AiAnalysis)"
  let ?b = "lit '' '' @ [10, 9]"
  let ?d = "lit ''+await run(x)'' @ [10] @ lit ''+eval (y) // TODO''"
  have blank: "\<forall>c \<in> set ?b. isWhiteSpace c"
    by (simp add: lit_def isWhiteSpace_def)
  have code: "\<not> (\<forall>c \<in> set ?d. isWhiteSpace c)"
    by (simp add: lit_def isWhiteSpace_def)
  have heur: "performHeuristicAnalysis ?d =
             [\<lparr>type = bug, severity = medium,
               message = lit ''Async operation without error handling'',
               line = Some (lit ''1''),
               suggestion = lit ''Add try-catch block or proper error handling''\<rparr>,
              \<lparr>type = security, severity = high,
               message = lit ''Potential security risk detected'',
               line = Some (lit ''2''),
               suggestion = lit ''Review for security implications and add proper validation''\<rparr>,
              \<lparr>type = best_practice, severity = low,
               message = lit ''TODO/FIXME comment found'',
               line = Some (lit ''2''),
               suggestion = lit ''Consider creating a proper issue tracker item''\<rparr>]"
    by (simp add: analysis_defs)
  have first: "analyzeCode ?ai ?b =
     (Inr \<lparr>summary = lit ''No code changes detected'', issues = [], positives = []\<rparr>, [])"
    using analyze_code_never_throws [of ?ai ?b "Error ''Failed to analyze code with OpenAI''"] blank
    by blast
  have second: "analyzeCode ?ai ?d =
     (Inr \<lparr>summary = lit ''Analysis completed with basic checks only (AI analysis unavailable)'',
           issues = performHeuristicAnalysis ?d, positives = []\<rparr>, [?d])"
    using analyze_code_never_throws [of ?ai ?d "Error ''Failed to analyze code with OpenAI''"] code
    by blast
  show ?thesis unfolding first second heur by (rule conjI) (rule refl)+
qed

section \<open>The job processors: duplicates and failures\<close>


lemma frames_throw: "frames f (throw e)"
  by (simp add: frames_def throw_def)








lemma checkRateLimit_step_allows:
  assumes "getCurrentUsage now i (redis w) < l"
  shows "\<exists>s. checkRateLimit_step now i l wd w = (Inr True, w\<lparr>redis := s\<rparr>)
             \<and> s (''lock:'' @ r) = redis w (''lock:'' @ r)"
proof -
  obtain b s where cs: "checkRateLimit now i l wd (redis w) = (b, s)"
    by (cases "checkRateLimit now i l wd (redis w)")
  have "b" using checkRateLimit_decision [of now i l wd "redis w"] cs assms by simp
  moreover have "s (''lock:'' @ r) = redis w (''lock:'' @ r)"
    using checkRateLimit_other [of now i l wd "redis w" r] cs by simp
  ultimately show ?thesis using cs by (intro exI [of _ s]) (simp add: checkRateLimit_step_def)
qed


lemma sample_resource: "lock_resource \<lparr>owner = Some ''acme'', repo = Some ''api'', pullNumber = Some 7, headSha = Some ''abc'', baseSha = Some ''def'', priority = None\<rparr> = ''pr:acme/api:7''"
  by (simp add: lock_resource_def template_def template_number_def toString.simps nth_Cons')

text \<open>
  C2. When the rate limit lets the job through and an unexpired lock of another worker
  exists for the job's resource key, \<open>handleCodeReview\<close> of the enhanced processor fails
  to acquire the lock and returns the \<open>duplicate\<close> outcome; its \<^verbatim>\<open>finally\<close> block still
  calls \<open>releaseLock\<close> on that key. So the lock entry held by the other worker, which
  would still be valid, is deleted, no metric is recorded, and an acquire on the key right
  afterwards succeeds.
\<close>

theorem duplicate_releases_foreign_lock:
  assumes "getCurrentUsage now (''github:'' @ template (owner d)) (redis w) < 100"
    and "lookup now (redis w) (''lock:'' @ lock_resource d) = Some e"
  shows "\<exists>w'. Enhanced_handleCodeReview c now d w =
                 (Inr (''duplicate'', Some ''Job already in progress''), w')
              \<and> redis w (''lock:'' @ lock_resource d) = Some e \<and> live now e
              \<and> redis w' (''lock:'' @ lock_resource d) = None
              \<and> metrics w' = metrics w \<and> reviews w' = reviews w
              \<and> (\<exists>s. acquireLock now (lock_resource d) 300000 (redis w') = Inr (True, s))"
proof -
  let ?k = "''lock:'' @ lock_resource d"
  obtain s where rate: "checkRateLimit_step now (''github:'' @ template (owner d)) 100 3600 w =
      (Inr True, w\<lparr>redis := s\<rparr>)" and same: "s ?k = redis w ?k"
    using checkRateLimit_step_allows [OF assms(1), of 3600 "lock_resource d"] by blast
  have held: "redis w ?k = Some e" "live now e"
    using assms(2) by (auto simp: lookup_def split: option.splits if_splits)
  have "lookup now s ?k \<noteq> None" using same held by (simp add: lookup_def)
  then have "acquireLock now (lock_resource d) 300000 s = Inr (False, s)"
    by (simp add: acquireLock_eq)
  then have acq: "acquireLock_step now (lock_resource d) 300000 (w\<lparr>redis := s\<rparr>) =
      (Inr False, w\<lparr>redis := s\<rparr>)"
    by (simp add: acquireLock_step_def)
  have body: "Enhanced_try c now d w =
      (Inr (''duplicate'', Some ''Job already in progress''), w\<lparr>redis := s\<rparr>)"
    unfolding Enhanced_try_def using rate acq by (simp add: await_def return_def)
  let ?w' = "w\<lparr>redis := releaseLock now (lock_resource d) s\<rparr>"
  have run: "Enhanced_handleCodeReview c now d w =
      (Inr (''duplicate'', Some ''Job already in progress''), ?w')"
    unfolding Enhanced_handleCodeReview_def using body
    by (simp add: try_finally_def try_catch_def releaseLock_step_def)
  have gone: "redis ?w' ?k = None" by (simp add: releaseLock_eq)
  then have "acquireLock now (lock_resource d) 300000 (redis ?w') =
      Inr (True, (redis ?w')(?k \<mapsto> \<lparr>val = now, expiry = Some (now + 300000)\<rparr>))"
    by (simp add: acquireLock_eq lookup_def)
  then show ?thesis using run held gone by auto
qed

theorem duplicate_releases_foreign_lock_witness:
  "\<exists>w'. Enhanced_handleCodeReview \<lparr>createReview_out = None, updateReviewStatus_out = (\<lambda>st. None), addReviewComments_out = None,
        octokit_pulls_get = Inl (Error ''ETIMEDOUT''), octokit_post_comments = None,
        octokit_post_summary = None, analyzeCodeDiff = (\<lambda>diff. Inl (Error ''unavailable'')),
        save_metric_out = (\<lambda>st. None),
        elapsed = 1500\<rparr> 2000 \<lparr>owner = Some ''acme'', repo = Some ''api'', pullNumber = Some 7, headSha = Some ''abc'', baseSha = Some ''def'', priority = None\<rparr> \<lparr>redis = [''lock:pr:acme/api:7'' \<mapsto> \<lparr>val = 1000, expiry = Some 301000\<rparr>], metrics = [], reviews = [], comments = [], github_calls = [], progress = 0\<rparr> =
          (Inr (''duplicate'', Some ''Job already in progress''), w')
        \<and> redis \<lparr>redis = [''lock:pr:acme/api:7'' \<mapsto> \<lparr>val = 1000, expiry = Some 301000\<rparr>], metrics = [], reviews = [], comments = [], github_calls = [], progress = 0\<rparr> ''lock:pr:acme/api:7'' = Some \<lparr>val = 1000, expiry = Some 301000\<rparr> \<and> live 2000 \<lparr>val = 1000, expiry = Some 301000\<rparr>
        \<and> redis w' ''lock:pr:acme/api:7'' = None
        \<and> (\<exists>s. acquireLock 2000 ''pr:acme/api:7'' 300000 (redis w') = Inr (True, s))"
proof -
  have rate: "getCurrentUsage 2000 (''github:'' @ template (owner \<lparr>owner = Some ''acme'', repo = Some ''api'', pullNumber = Some 7, headSha = Some ''abc'', baseSha = Some ''def'', priority = None\<rparr>)) (redis \<lparr>redis = [''lock:pr:acme/api:7'' \<mapsto> \<lparr>val = 1000, expiry = Some 301000\<rparr>], metrics = [], reviews = [], comments = [], github_calls = [], progress = 0\<rparr>) < 100"
    by (simp add: redis_model_defs template_def)
  have held: "lookup 2000 (redis \<lparr>redis = [''lock:pr:acme/api:7'' \<mapsto> \<lparr>val = 1000, expiry = Some 301000\<rparr>], metrics = [], reviews = [], comments = [], github_calls = [], progress = 0\<rparr>) (''lock:'' @ lock_resource \<lparr>owner = Some ''acme'', repo = Some ''api'', pullNumber = Some 7, headSha = Some ''abc'', baseSha = Some ''def'', priority = None\<rparr>) = Some \<lparr>val = 1000, expiry = Some 301000\<rparr>"
    unfolding sample_resource by (simp add: lookup_def live_def)
  show ?thesis
    using duplicate_releases_foreign_lock [OF rate held, of "\<lparr>createReview_out = None, updateReviewStatus_out = (\<lambda>st. None), addReviewComments_out = None,
        octokit_pulls_get = Inl (Error ''ETIMEDOUT''), octokit_post_comments = None,
        octokit_post_summary = None, analyzeCodeDiff = (\<lambda>diff. Inl (Error ''unavailable'')),
        save_metric_out = (\<lambda>st. None),
        elapsed = 1500\<rparr>"]
    unfolding sample_resource by auto
qed






end
